theory Spec2Isabelle
  imports Complex_Main
begin

section \<open>Exceptions and output sinks\<close>

text \<open>
  A Python exception is modelled by its class and its message (what \<open>str(e)\<close> gives).
  Only the classes that the handlers of the program tell apart are listed; \<open>Exn c m\<close>
  with a class the handler does not name stands for any other subclass of \<open>Exception\<close>.
  A call that may raise returns a value of type \<open>py_exn + 'a\<close> (\<open>Inl\<close> is the raise).
  Exceptions outside \<open>Exception\<close> (\<open>KeyboardInterrupt\<close>, \<open>SystemExit\<close>), which
  no handler of the program catches, are not part of the model.
\<close>

datatype exn_class =
  OperationalError | DatabaseError | ValueError | TypeError | IndexError | KeyError
  | RuntimeError | OSError

datatype py_exn = Exn exn_class string

fun exn_class_of :: "py_exn \<Rightarrow> exn_class" where
  "exn_class_of (Exn c m) = c"

fun str_of_exn :: "py_exn \<Rightarrow> string" where
  "str_of_exn (Exn c m) = m"

abbreviation newline :: char where "newline \<equiv> CHR 0x0A"
abbreviation carriage_return :: char where "carriage_return \<equiv> CHR 0x0D"

text \<open>
  The original stream behind a relay (the console) is observed through the calls it
  receives: every \<open>write(text)\<close> and every \<open>flush()\<close>, in order.
\<close>

datatype sink_event = SinkWrite string | SinkFlush

section \<open>The log relay: class GuiLogStream (gui/controller.py)\<close>

text \<open>
  The fields of the class. The lock is not modelled: each \<open>write\<close> and each \<open>flush\<close>
  runs under it and is one atomic step here.
\<close>

record GuiLogStream =
  queue :: "(string \<times> string) list"
  original_stream :: "sink_event list"
  stream_name :: string
  buffer :: string

text \<open>\<open>GuiLogStream.__init__\<close>.\<close>

definition GuiLogStream_init ::
  "(string \<times> string) list \<Rightarrow> sink_event list \<Rightarrow> string \<Rightarrow> GuiLogStream" where
  "GuiLogStream_init message_queue original stream_name' =
     \<lparr>queue = message_queue, original_stream = original, stream_name = stream_name',
      buffer = []\<rparr>"

text \<open>\<open>s.split("\n", 1)\<close> on a string that contains a newline: the text before the
  first newline and the text after it.\<close>

definition split_first :: "string \<Rightarrow> string \<times> string" where
  "split_first s =
     (takeWhile (\<lambda>c. c \<noteq> newline) s, drop 1 (dropWhile (\<lambda>c. c \<noteq> newline) s))"

text \<open>\<open>line.rstrip("\r")\<close>: every trailing carriage return is removed.\<close>

definition rstrip_cr :: "string \<Rightarrow> string" where
  "rstrip_cr s = rev (dropWhile (\<lambda>c. c = carriage_return) (rev s))"

text \<open>The loop \<open>while "\n" in self._buffer\<close> of \<open>write\<close>.\<close>

function drain :: "GuiLogStream \<Rightarrow> GuiLogStream" where
  "drain self =
     (if newline \<in> set (buffer self) then
        (case split_first (buffer self) of
           (line, rest) \<Rightarrow>
             drain (self\<lparr>buffer := rest,
                         queue := queue self @ [(stream_name self, rstrip_cr line)]\<rparr>))
      else self)"
  by pat_completeness auto
termination
  apply (relation "measure (\<lambda>self. length (buffer self))")
   apply simp
  apply (simp add: split_first_def)
  subgoal for self
    using length_dropWhile_le [of "\<lambda>c. c \<noteq> newline" "buffer self"]
    by (cases "buffer self") auto
  done

declare drain.simps [simp del]

text \<open>\<open>GuiLogStream.write\<close>: returns \<open>len(message)\<close> and the stream after the
  call. (A \<open>char\<close> is a byte here, so the count is Python's only for ASCII text;
  nothing below depends on it.)\<close>

definition write_relay :: "GuiLogStream \<Rightarrow> string \<Rightarrow> nat \<times> GuiLogStream" where
  "write_relay self message =
     (if message = [] then (0, self)
      else
        let self1 = self\<lparr>original_stream := original_stream self @ [SinkWrite message]\<rparr>;
            self2 = self1\<lparr>original_stream := original_stream self1 @ [SinkFlush]\<rparr>;
            self3 = self2\<lparr>buffer := buffer self2 @ message\<rparr>
        in (length message, drain self3))"

text \<open>A sequence of \<open>write\<close> calls on one stream.\<close>

definition write_all :: "GuiLogStream \<Rightarrow> string list \<Rightarrow> GuiLogStream" where
  "write_all self messages = foldl (\<lambda>s m. snd (write_relay s m)) self messages"

text \<open>\<open>GuiLogStream.flush\<close>.\<close>

definition flush_relay :: "GuiLogStream \<Rightarrow> GuiLogStream" where
  "flush_relay self =
     (let self1 = self\<lparr>original_stream := original_stream self @ [SinkFlush]\<rparr>
      in if buffer self1 \<noteq> [] then
           self1\<lparr>queue := queue self1 @ [(stream_name self1, rstrip_cr (buffer self1))],
                  buffer := []\<rparr>
         else self1)"

text \<open>\<open>s.split("\n")\<close>, used to say what \<open>drain\<close> computes: the segments between
  newlines; the last one is the text after the last newline.\<close>

fun split_nl :: "string \<Rightarrow> string list" where
  "split_nl [] = [] # []"
| "split_nl (c # cs) =
     (if c = newline then [] # split_nl cs
      else (case split_nl cs of [] \<Rightarrow> [c] # [] | l # ls \<Rightarrow> (c # l) # ls))"

section \<open>Classification: modules/policy\_engine.py\<close>

text \<open>The loaded configuration: a dictionary from keys to lists of application
  names. A missing key raises \<open>KeyError\<close>.\<close>

type_synonym config = "string \<rightharpoonup> string list"

definition check_app_category :: "string \<Rightarrow> config \<Rightarrow> py_exn + string" where
  "check_app_category app_name config =
     (case config ''productive_apps'' of
        None \<Rightarrow> Inl (Exn KeyError ''productive_apps'')
      | Some productive_apps \<Rightarrow>
          if app_name \<in> set productive_apps then Inr ''productive''
          else (case config ''distracting_apps'' of
                  None \<Rightarrow> Inl (Exn KeyError ''distracting_apps'')
                | Some distracting_apps \<Rightarrow>
                    if app_name \<in> set distracting_apps then Inr ''distracting''
                    else Inr ''neutral''))"

text \<open>The categories of a session record as the data model lists them.\<close>

definition category_enum :: "string set" where
  "category_enum = {''productive'', ''distracted'', ''neutral''}"

section \<open>The controller and the process it runs in\<close>

text \<open>
  The state: the fields of \<open>FocusController\<close>, and the part of the process that its
  methods touch: the two console streams, the relays that \<open>run_daemon\<close> installs as
  \<open>sys.stdout\<close> and \<open>sys.stderr\<close> (\<open>None\<close> while the original stream is in place,
  otherwise the relay's buffer; its queue is \<open>log_queue\<close> and its original stream the
  console), and the calls made to the backend and to the thread, in order.
\<close>

datatype thread_state = Unstarted | Alive | Finished
datatype event_loop = EventLoop
datatype task = FocusDaemonTask

datatype backend_call =
  InitDb | ThreadStart | CallSoonCancel | UnblockWebsites | ApplyFocusPolicies string
  | ThreadJoin

record world =
  is_running :: bool
  daemon_thread :: "thread_state option"
  daemon_loop :: "event_loop option"
  daemon_task :: "task option"
  stop_event :: bool
  current_status :: string
  log_queue :: "(string \<times> string) list"
  console_stdout :: "sink_event list"
  console_stderr :: "sink_event list"
  gui_stdout :: "string option"
  gui_stderr :: "string option"
  calls :: "backend_call list"

text \<open>A write to \<open>sys.stdout\<close>: to the console, or through the installed relay, whose
  queue and original stream are shared with the rest of the state.\<close>

definition stdout_relay :: "world \<Rightarrow> string \<Rightarrow> GuiLogStream" where
  "stdout_relay w buf =
     \<lparr>queue = log_queue w, original_stream = console_stdout w,
      stream_name = ''stdout'', buffer = buf\<rparr>"

definition store_stdout_relay :: "GuiLogStream \<Rightarrow> world \<Rightarrow> world" where
  "store_stdout_relay r w =
     w\<lparr>log_queue := queue r, console_stdout := original_stream r,
       gui_stdout := Some (buffer r)\<rparr>"

definition stderr_relay :: "world \<Rightarrow> string \<Rightarrow> GuiLogStream" where
  "stderr_relay w buf =
     \<lparr>queue = log_queue w, original_stream = console_stderr w,
      stream_name = ''stderr'', buffer = buf\<rparr>"

definition store_stderr_relay :: "GuiLogStream \<Rightarrow> world \<Rightarrow> world" where
  "store_stderr_relay r w =
     w\<lparr>log_queue := queue r, console_stderr := original_stream r,
       gui_stderr := Some (buffer r)\<rparr>"

definition sys_stdout_write :: "string \<Rightarrow> world \<Rightarrow> world" where
  "sys_stdout_write s w =
     (case gui_stdout w of
        None \<Rightarrow> w\<lparr>console_stdout := console_stdout w @ [SinkWrite s]\<rparr>
      | Some buf \<Rightarrow> store_stdout_relay (snd (write_relay (stdout_relay w buf) s)) w)"

definition sys_stderr_write :: "string \<Rightarrow> world \<Rightarrow> world" where
  "sys_stderr_write s w =
     (case gui_stderr w of
        None \<Rightarrow> w\<lparr>console_stderr := console_stderr w @ [SinkWrite s]\<rparr>
      | Some buf \<Rightarrow> store_stderr_relay (snd (write_relay (stderr_relay w buf) s)) w)"

text \<open>\<open>print(s)\<close> writes the text and then the line end to \<open>sys.stdout\<close>. It is taken
  not to fail.\<close>

definition py_print :: "string \<Rightarrow> world \<Rightarrow> world" where
  "py_print s w = sys_stdout_write [newline] (sys_stdout_write s w)"

text \<open>\<open>FocusController.__init__\<close> in a fresh process; the argument is what
  \<open>init_db()\<close> raises, if it does.\<close>

definition FocusController_init :: "py_exn option \<Rightarrow> world" where
  "FocusController_init init_db_exn =
     (let self = \<lparr>is_running = False, daemon_thread = None, daemon_loop = None,
                  daemon_task = None, stop_event = False, current_status = ''Idle'',
                  log_queue = [], console_stdout = [], console_stderr = [],
                  gui_stdout = None, gui_stderr = None, calls = [InitDb]\<rparr>
      in case init_db_exn of
           None \<Rightarrow> self
         | Some e \<Rightarrow>
             py_print (''[GUI] Warning: Could not initialize database: '' @ str_of_exn e) self)"

subsection \<open>start\_focus\<close>

text \<open>What the environment does to the calls of \<open>start_focus\<close>: whether starting the
  thread raises.\<close>

record start_env =
  thread_start_exn :: "py_exn option"

text \<open>The body of the \<open>try\<close> block: the exception that leaves it, if any, and the
  state at that point.\<close>

definition start_body :: "start_env \<Rightarrow> world \<Rightarrow> py_exn option \<times> world" where
  "start_body env self =
     (let self1 = self\<lparr>stop_event := False\<rparr>;
          self2 = self1\<lparr>log_queue := []\<rparr>;
          self3 = self2\<lparr>daemon_thread := Some Unstarted\<rparr>;
          self4 = self3\<lparr>calls := calls self3 @ [ThreadStart]\<rparr>
      in case thread_start_exn env of
           Some e \<Rightarrow> (Some e, self4)
         | None \<Rightarrow>
             (None, self4\<lparr>daemon_thread := Some Alive, is_running := True,
                          current_status := ''Focus Active''\<rparr>))"

definition start_focus :: "start_env \<Rightarrow> world \<Rightarrow> (py_exn + bool) \<times> world" where
  "start_focus env self =
     (if is_running self then (Inr False, self)
      else (case start_body env self of
              (None, self') \<Rightarrow> (Inr True, self')
            | (Some e, self') \<Rightarrow>
                (Inr False,
                 py_print (''[GUI] Failed to start focus mode: '' @ str_of_exn e) self')))"

subsection \<open>stop\_focus\<close>

text \<open>What the environment does to the calls of \<open>stop_focus\<close>: for each call that can
  fail, the exception it raises, if any. \<open>unblock_websites\<close> and
  \<open>apply_focus_policies\<close> are backend functions imported from \<open>main\<close>.\<close>

record stop_env =
  call_soon_threadsafe_exn :: "py_exn option"
  unblock_websites_exn :: "py_exn option"
  apply_focus_policies_exn :: "py_exn option"
  join_exn :: "py_exn option"

text \<open>The three steps of the body, in the order of the source: signal cancellation,
  clean up, wait for the thread.\<close>

definition cancel_daemon_task :: "stop_env \<Rightarrow> world \<Rightarrow> world" where
  "cancel_daemon_task env self =
     (if daemon_loop self \<noteq> None \<and> daemon_task self \<noteq> None then
        (let self1 = self\<lparr>calls := calls self @ [CallSoonCancel]\<rparr>
         in case call_soon_threadsafe_exn env of
              None \<Rightarrow> self1
            | Some e \<Rightarrow> py_print (''[GUI] Error cancelling task: '' @ str_of_exn e) self1)
      else self)"

definition cleanup :: "stop_env \<Rightarrow> world \<Rightarrow> world" where
  "cleanup env self =
     (let self1 = self\<lparr>calls := calls self @ [UnblockWebsites]\<rparr>
      in case unblock_websites_exn env of
           Some e \<Rightarrow>
             py_print (''[GUI] Warning: Error during cleanup: '' @ str_of_exn e) self1
         | None \<Rightarrow>
             (let self2 = self1\<lparr>calls := calls self1 @ [ApplyFocusPolicies ''productive'']\<rparr>
              in case apply_focus_policies_exn env of
                   Some e \<Rightarrow>
                     py_print (''[GUI] Warning: Error during cleanup: '' @ str_of_exn e) self2
                 | None \<Rightarrow> self2))"

definition stop_body :: "stop_env \<Rightarrow> world \<Rightarrow> py_exn option \<times> world" where
  "stop_body env self =
     (let self1 = self\<lparr>stop_event := True\<rparr>;
          self2 = cancel_daemon_task env self1;
          self3 = cleanup env self2;
          self4 = self3\<lparr>is_running := False, current_status := ''Idle''\<rparr>
      in if daemon_thread self4 = Some Alive then
           (join_exn env, self4\<lparr>calls := calls self4 @ [ThreadJoin]\<rparr>)
         else (None, self4))"

definition stop_focus :: "stop_env \<Rightarrow> world \<Rightarrow> (py_exn + bool) \<times> world" where
  "stop_focus env self =
     (if \<not> is_running self then (Inr False, self)
      else (case stop_body env self of
              (None, self') \<Rightarrow> (Inr True, self')
            | (Some e, self') \<Rightarrow>
                (Inr False,
                 (py_print (''[GUI] Failed to stop focus mode: '' @ str_of_exn e) self')
                   \<lparr>is_running := False, current_status := ''Idle''\<rparr>)))"

definition get_status :: "world \<Rightarrow> string" where
  "get_status self = current_status self"

definition get_log_queue :: "world \<Rightarrow> (string \<times> string) list" where
  "get_log_queue self = log_queue self"

subsection \<open>The daemon thread: run\_daemon\<close>

text \<open>
  The thread started by \<open>start_focus\<close> runs \<open>run_daemon\<close>. Its effect on the shared
  state is given as three steps that interleave with the controller's methods: entering
  (the event loop and the task are stored, the relays installed), output of the daemon,
  and leaving (the \<open>except\<close> and \<open>finally\<close> clauses). \<open>focus_daemon\<close> itself is a
  backend function: how it ends is the argument of the last step.
\<close>

datatype daemon_outcome = Completed | Cancelled | Failed py_exn

definition run_daemon_enter :: "world \<Rightarrow> world" where
  "run_daemon_enter self =
     self\<lparr>daemon_loop := Some EventLoop, gui_stdout := Some [], gui_stderr := Some [],
          daemon_task := Some FocusDaemonTask\<rparr>"

definition flush_gui_stdout :: "world \<Rightarrow> world" where
  "flush_gui_stdout w =
     (case gui_stdout w of
        None \<Rightarrow> w
      | Some buf \<Rightarrow> store_stdout_relay (flush_relay (stdout_relay w buf)) w)"

definition flush_gui_stderr :: "world \<Rightarrow> world" where
  "flush_gui_stderr w =
     (case gui_stderr w of
        None \<Rightarrow> w
      | Some buf \<Rightarrow> store_stderr_relay (flush_relay (stderr_relay w buf)) w)"

definition run_daemon_exit :: "daemon_outcome \<Rightarrow> world \<Rightarrow> world" where
  "run_daemon_exit outcome self =
     (let self1 = (case outcome of
                     Completed \<Rightarrow> self
                   | Cancelled \<Rightarrow> py_print ''[GUI] Daemon stopped'' self
                   | Failed e \<Rightarrow> py_print (''[GUI] Daemon error: '' @ str_of_exn e) self);
          self2 = flush_gui_stderr (flush_gui_stdout self1);
          self3 = self2\<lparr>gui_stdout := None, gui_stderr := None\<rparr>;
          self4 = self3\<lparr>daemon_loop := None, daemon_task := None\<rparr>
      in self4\<lparr>daemon_thread := Some Finished\<rparr>)"

section \<open>The session query: get\_recent\_sessions\<close>

text \<open>
  An instant is a number of microseconds, the resolution of \<open>datetime\<close>. A duration in
  minutes is an exact rational here; the source computes it in floating point
  (\<open>total_seconds() / 60.0\<close>), which rounds but keeps the sign, so the test
  \<open>duration > 0\<close> is the same.
\<close>

type_synonym instant = int

text \<open>The timestamp column as \<open>sqlite3\<close> hands it over: text, a \<open>datetime\<close> object,
  or anything else (\<open>None\<close>, a number, bytes).\<close>

datatype cell = Str string | DateTime instant | OtherValue

type_synonym row = "string \<times> string \<times> cell"
type_synonym session = "string \<times> string \<times> rat"

text \<open>
  The database and the clock: whether \<open>sqlite3.connect\<close> raises, what each of the two
  \<open>SELECT \<dots> ORDER BY timestamp DESC LIMIT ?\<close> statements gives for a limit (the
  rows, or the exception raised), what \<open>datetime.strptime(s, "%Y-%m-%d %H:%M:%S")\<close>
  gives for a string (the instant, or the message of its \<open>ValueError\<close>), and
  \<open>datetime.now()\<close>.
\<close>

record db_env =
  connect_exn :: "py_exn option"
  select_focus_log :: "int \<Rightarrow> py_exn + row list"
  select_focus_sessions :: "int \<Rightarrow> py_exn + row list"
  strptime :: "string \<Rightarrow> string + instant"
  now :: instant

definition total_minutes :: "instant \<Rightarrow> instant \<Rightarrow> rat" where
  "total_minutes a b = of_int (a - b) / 60000000"

definition timestamp_of :: "row \<Rightarrow> cell" where
  "timestamp_of r = snd (snd r)"

subsection \<open>Schema A: table focus\_log\<close>

text \<open>\<open>datetime.strptime\<close> applied to a cell: \<open>TypeError\<close> when it is not text.\<close>

definition strptime_cell :: "db_env \<Rightarrow> cell \<Rightarrow> py_exn + instant" where
  "strptime_cell env c =
     (case c of
        Str s \<Rightarrow> (case strptime env s of
                    Inl msg \<Rightarrow> Inl (Exn ValueError msg)
                  | Inr t \<Rightarrow> Inr t)
      | DateTime t \<Rightarrow> Inl (Exn TypeError ''strptime() argument 1 must be str'')
      | OtherValue \<Rightarrow> Inl (Exn TypeError ''strptime() argument 1 must be str''))"

text \<open>The duration computed for row \<open>i\<close>; the loop calls it with \<open>i < length rows\<close>
  only.\<close>

definition duration_focus_log :: "db_env \<Rightarrow> row list \<Rightarrow> nat \<Rightarrow> py_exn + rat" where
  "duration_focus_log env rows i =
     (case strptime_cell env (timestamp_of (rows ! i)) of
        Inl e \<Rightarrow> Inl e
      | Inr session_time \<Rightarrow>
          if i = 0 then Inr (total_minutes (now env) session_time)
          else (case strptime_cell env (timestamp_of (rows ! (i - 1))) of
                  Inl e \<Rightarrow> Inl e
                | Inr next_time \<Rightarrow> Inr (total_minutes next_time session_time)))"

text \<open>One iteration of the loop: the sessions it appends, or the exception that
  leaves it.\<close>

definition append_focus_log :: "db_env \<Rightarrow> row list \<Rightarrow> nat \<Rightarrow> py_exn + session list" where
  "append_focus_log env rows i =
     (case rows ! i of
        (app_name, mode, timestamp) \<Rightarrow>
          (case duration_focus_log env rows i of
             Inr duration \<Rightarrow> Inr (if duration > 0 then [(app_name, mode, duration)] else [])
           | Inl e \<Rightarrow>
               if exn_class_of e = ValueError \<or> exn_class_of e = IndexError
               then Inr [(app_name, mode, 0)]
               else Inl e))"

text \<open>The \<open>for\<close> loop over the indices: \<open>sessions\<close> is extended in place, so what was
  appended before an exception stays.\<close>

fun for_rows ::
  "(nat \<Rightarrow> py_exn + session list) \<Rightarrow> nat list \<Rightarrow> session list
    \<Rightarrow> py_exn option \<times> session list"
where
  "for_rows body [] sessions = (None, sessions)"
| "for_rows body (i # is) sessions =
     (case body i of
        Inl e \<Rightarrow> (Some e, sessions)
      | Inr new \<Rightarrow> for_rows body is (sessions @ new))"

definition query_focus_log ::
  "db_env \<Rightarrow> int \<Rightarrow> session list \<Rightarrow> py_exn option \<times> session list" where
  "query_focus_log env limit sessions =
     (case select_focus_log env limit of
        Inl e \<Rightarrow> (Some e, sessions)
      | Inr rows \<Rightarrow> for_rows (append_focus_log env rows) [0..<length rows] sessions)"

subsection \<open>Schema B: table focus\_sessions\<close>

text \<open>\<open>strptime\<close> if the cell is text, the cell itself otherwise.\<close>

definition timestamp_value :: "db_env \<Rightarrow> cell \<Rightarrow> py_exn + cell" where
  "timestamp_value env c =
     (case c of
        Str s \<Rightarrow> (case strptime env s of
                    Inl msg \<Rightarrow> Inl (Exn ValueError msg)
                  | Inr t \<Rightarrow> Inr (DateTime t))
      | DateTime t \<Rightarrow> Inr (DateTime t)
      | OtherValue \<Rightarrow> Inr OtherValue)"

text \<open>\<open>(a - b).total_seconds() / 60.0\<close>: \<open>TypeError\<close> unless both are
  \<open>datetime\<close> objects.\<close>

definition minutes_between :: "cell \<Rightarrow> cell \<Rightarrow> py_exn + rat" where
  "minutes_between a b =
     (case (a, b) of
        (DateTime x, DateTime y) \<Rightarrow> Inr (total_minutes x y)
      | _ \<Rightarrow> Inl (Exn TypeError ''unsupported operand type(s) for -''))"

definition duration_focus_sessions :: "db_env \<Rightarrow> row list \<Rightarrow> nat \<Rightarrow> py_exn + rat" where
  "duration_focus_sessions env rows i =
     (case timestamp_value env (timestamp_of (rows ! i)) of
        Inl e \<Rightarrow> Inl e
      | Inr session_time \<Rightarrow>
          if i = 0 then minutes_between (DateTime (now env)) session_time
          else (case timestamp_value env (timestamp_of (rows ! (i - 1))) of
                  Inl e \<Rightarrow> Inl e
                | Inr next_time \<Rightarrow> minutes_between next_time session_time))"

definition append_focus_sessions ::
  "db_env \<Rightarrow> row list \<Rightarrow> nat \<Rightarrow> py_exn + session list" where
  "append_focus_sessions env rows i =
     (case rows ! i of
        (app_name, category, timestamp) \<Rightarrow>
          (case duration_focus_sessions env rows i of
             Inr duration \<Rightarrow>
               Inr (if duration > 0 then [(app_name, category, duration)] else [])
           | Inl e \<Rightarrow>
               if exn_class_of e = ValueError \<or> exn_class_of e = TypeError
                  \<or> exn_class_of e = IndexError
               then Inr [(app_name, category, 0)]
               else Inl e))"

definition query_focus_sessions ::
  "db_env \<Rightarrow> int \<Rightarrow> session list \<Rightarrow> py_exn option \<times> session list" where
  "query_focus_sessions env limit sessions =
     (case select_focus_sessions env limit of
        Inl e \<Rightarrow> (Some e, sessions)
      | Inr rows \<Rightarrow> for_rows (append_focus_sessions env rows) [0..<length rows] sessions)"

subsection \<open>The facade\<close>

text \<open>The outer \<open>try\<close> block: schema A first, schema B in the handler of
  \<open>sqlite3.OperationalError\<close>.\<close>

definition fetch_sessions :: "db_env \<Rightarrow> int \<Rightarrow> py_exn option \<times> session list" where
  "fetch_sessions env limit =
     (case connect_exn env of
        Some e \<Rightarrow> (Some e, [])
      | None \<Rightarrow>
          (case query_focus_log env limit [] of
             (None, sessions) \<Rightarrow> (None, sessions)
           | (Some e, sessions) \<Rightarrow>
               if exn_class_of e = OperationalError
               then query_focus_sessions env limit sessions
               else (Some e, sessions)))"

definition get_recent_sessions ::
  "db_env \<Rightarrow> int \<Rightarrow> world \<Rightarrow> (py_exn + session list) \<times> world" where
  "get_recent_sessions env limit self =
     (case fetch_sessions env limit of
        (None, sessions) \<Rightarrow> (Inr sessions, self)
      | (Some e, sessions) \<Rightarrow>
          (Inr sessions,
           py_print (''[GUI] Error fetching sessions: '' @ str_of_exn e) self))"

subsection \<open>The derived duration view\<close>

text \<open>
  The durations in the words of the data model, to compare the code with: in a list of
  instants, newest first, every record gets the time of the record before it in the list
  minus its own time, and the first one gets \<open>now\<close> minus its own time.
  \<open>derived_durations newer ts\<close> takes \<open>newer\<close> for the instant before the head of
  \<open>ts\<close>. \<open>with_duration\<close> pairs a row's subject and category with a duration.
\<close>

fun derived_durations :: "instant \<Rightarrow> instant list \<Rightarrow> rat list" where
  "derived_durations newer [] = []"
| "derived_durations newer (t # ts) = total_minutes newer t # derived_durations t ts"

definition with_duration :: "row \<Rightarrow> rat \<Rightarrow> session" where
  "with_duration r d = (fst r, fst (snd r), d)"

section \<open>Reachable states\<close>

text \<open>The states the controller and its daemon thread can be in: after construction,
  and after any call of a method or step of the daemon thread from such a state.\<close>

inductive reachable :: "world \<Rightarrow> bool" where
  init: "reachable (FocusController_init init_db_exn)"
| start: "reachable w \<Longrightarrow> reachable (snd (start_focus env w))"
| stop: "reachable w \<Longrightarrow> reachable (snd (stop_focus senv w))"
| sessions: "reachable w \<Longrightarrow> reachable (snd (get_recent_sessions denv limit w))"
| enter: "reachable w \<Longrightarrow> daemon_thread w = Some Alive \<Longrightarrow> reachable (run_daemon_enter w)"
| out: "reachable w \<Longrightarrow> reachable (sys_stdout_write text w)"
| err: "reachable w \<Longrightarrow> reachable (sys_stderr_write text w)"
| exit: "reachable w \<Longrightarrow> gui_stdout w \<noteq> None \<Longrightarrow> reachable (run_daemon_exit outcome w)"

code_pred reachable .


section \<open>Example states and environments\<close>

text \<open>A controller just constructed, one that has been started, and environments in
  which one of the calls fails.\<close>

definition idle_world :: world where
  "idle_world = FocusController_init None"

definition start_ok :: start_env where
  "start_ok = \<lparr>thread_start_exn = None\<rparr>"

definition start_fails :: start_env where
  "start_fails = \<lparr>thread_start_exn = Some (Exn RuntimeError ''cannot start new thread'')\<rparr>"

definition running_world :: world where
  "running_world = snd (start_focus start_ok idle_world)"

definition stop_ok :: stop_env where
  "stop_ok = \<lparr>call_soon_threadsafe_exn = None, unblock_websites_exn = None,
              apply_focus_policies_exn = None, join_exn = None\<rparr>"

definition cancel_fails :: stop_env where
  "cancel_fails = stop_ok\<lparr>call_soon_threadsafe_exn :=
                      Some (Exn RuntimeError ''Event loop is closed'')\<rparr>"

definition cleanup_fails :: stop_env where
  "cleanup_fails = stop_ok\<lparr>unblock_websites_exn :=
                      Some (Exn OSError ''[Errno 13] Permission denied'')\<rparr>"

definition join_fails :: stop_env where
  "join_fails = stop_ok\<lparr>join_exn := Some (Exn RuntimeError ''cannot join current thread'')\<rparr>"

definition fresh_stdout_relay :: GuiLogStream where
  "fresh_stdout_relay = GuiLogStream_init [] [] ''stdout''"

text \<open>
  A database for the examples. \<open>example_strptime\<close> is \<open>datetime.strptime\<close> on the
  timestamps that occur in them (microseconds since 1970, the naive time read as UTC);
  every other string is taken to be rejected. \<open>now\<close> is 2024-01-01 12:12:00.
  \<open>jumbled_rows\<close> has a duplicate timestamp and one out of order; \<open>locked_db\<close> fails on
  schema A with an \<open>OperationalError\<close> that is not a missing table and has the rows
  under schema B; \<open>corrupt_db\<close> fails on schema A with another database error.
\<close>

definition example_strptime :: "string \<Rightarrow> string + instant" where
  "example_strptime s =
     (case map_of [(''2024-01-01 12:00:00'', 1704110400000000),
                   (''2024-01-01 12:05:00'', 1704110700000000),
                   (''2024-01-01 12:10:00'', 1704111000000000)] s of
        Some t \<Rightarrow> Inr t
      | None \<Rightarrow> Inl ''time data does not match format %Y-%m-%d %H:%M:%S'')"

definition example_rows :: "row list" where
  "example_rows =
     [(''slack'', ''distracted'', Str ''2024-01-01 12:10:00''),
      (''code'', ''productive'', Str ''2024-01-01 12:05:00''),
      (''firefox'', ''neutral'', Str ''2024-01-01 12:00:00'')]"

definition jumbled_rows :: "row list" where
  "jumbled_rows =
     [(''slack'', ''distracted'', Str ''2024-01-01 12:05:00''),
      (''code'', ''productive'', Str ''2024-01-01 12:05:00''),
      (''mail'', ''neutral'', Str ''2024-01-01 12:10:00''),
      (''firefox'', ''neutral'', Str ''2024-01-01 12:00:00'')]"

definition example_db :: db_env where
  "example_db =
     \<lparr>connect_exn = None,
      select_focus_log = (\<lambda>limit. Inr (take (nat limit) example_rows)),
      select_focus_sessions =
        (\<lambda>limit. Inl (Exn OperationalError ''no such table: focus_sessions'')),
      strptime = example_strptime,
      now = 1704111120000000\<rparr>"

definition jumbled_db :: db_env where
  "jumbled_db = example_db\<lparr>select_focus_log := (\<lambda>limit. Inr (take (nat limit) jumbled_rows))\<rparr>"

definition locked_db :: db_env where
  "locked_db =
     example_db\<lparr>select_focus_log := (\<lambda>limit. Inl (Exn OperationalError ''database is locked'')),
                select_focus_sessions := (\<lambda>limit. Inr (take (nat limit) example_rows))\<rparr>"

definition corrupt_db :: db_env where
  "corrupt_db =
     example_db\<lparr>select_focus_log := (\<lambda>limit. Inl (Exn DatabaseError ''file is not a database''))\<rparr>"

text \<open>The definitions of the examples, for unfolding.\<close>

lemmas example_defs =
  idle_world_def start_ok_def start_fails_def running_world_def stop_ok_def cancel_fails_def
  cleanup_fails_def join_fails_def FocusController_init_def

lemmas example_db_defs =
  example_db_def jumbled_db_def locked_db_def corrupt_db_def example_rows_def jumbled_rows_def
  example_strptime_def timestamp_of_def

section \<open>Properties of the log relay\<close>

lemma split_nl_nonempty: "split_nl s \<noteq> []"
  by (induction s) (auto split: list.splits)

lemma split_nl_no_newline: "newline \<notin> set s \<Longrightarrow> split_nl s = [s]"
  by (induction s) auto

lemma split_nl_newline:
  "newline \<in> set s \<Longrightarrow>
   split_nl s = takeWhile (\<lambda>c. c \<noteq> newline) s
                # split_nl (drop 1 (dropWhile (\<lambda>c. c \<noteq> newline) s))"
proof (induction s)
  case Nil
  then show ?case by simp
next
  case (Cons c cs)
  show ?case
  proof (cases "c = newline")
    case True
    then show ?thesis by simp
  next
    case False
    with Cons.prems have "newline \<in> set cs" by simp
    from Cons.IH [OF this] False show ?thesis by simp
  qed
qed

lemma last_split_nl_no_newline: "newline \<notin> set (last (split_nl s))"
  using split_nl_nonempty by (induction s) (auto split: list.splits)

lemma split_nl_append:
  "split_nl (a @ b) = butlast (split_nl a) @ split_nl (last (split_nl a) @ b)"
proof (induction a)
  case Nil
  then show ?case by simp
next
  case (Cons c cs)
  then show ?case
    using split_nl_nonempty [of cs] split_nl_nonempty [of "cs @ b"]
      split_nl_nonempty [of "last (split_nl cs) @ b"]
    by (auto split: list.splits)
qed

text \<open>The loop of \<open>write\<close> turns every newline-terminated segment of the buffer into a
  queue entry, in order, and leaves the text after the last newline in the buffer.\<close>

lemma drain_lines:
  "drain self =
     self\<lparr>buffer := last (split_nl (buffer self)),
          queue := queue self
             @ map (\<lambda>line. (stream_name self, rstrip_cr line)) (butlast (split_nl (buffer self)))\<rparr>"
proof (induction self rule: drain.induct)
  case (1 self)
  show ?case
  proof (cases "newline \<in> set (buffer self)")
    case True
    obtain line rest where lr: "split_first (buffer self) = (line, rest)"
      by (cases "split_first (buffer self)")
    have sp: "split_nl (buffer self) = line # split_nl rest"
      using split_nl_newline [OF True] lr by (simp add: split_first_def)
    have "drain self = drain (self\<lparr>buffer := rest,
                         queue := queue self @ [(stream_name self, rstrip_cr line)]\<rparr>)"
      using True lr by (subst drain.simps) simp
    also have "\<dots> = self\<lparr>buffer := last (split_nl rest),
          queue := (queue self @ [(stream_name self, rstrip_cr line)])
             @ map (\<lambda>line. (stream_name self, rstrip_cr line)) (butlast (split_nl rest))\<rparr>"
      using "1.IH" [OF True lr [symmetric]] by simp
    finally show ?thesis
      using sp split_nl_nonempty [of rest] by simp
  next
    case False
    then show ?thesis
      by (subst drain.simps) (simp add: split_nl_no_newline)
  qed
qed

lemma write_relay_nonempty:
  "message \<noteq> [] \<Longrightarrow>
   write_relay self message =
     (length message,
      self\<lparr>original_stream := original_stream self @ [SinkWrite message, SinkFlush],
           buffer := last (split_nl (buffer self @ message)),
           queue := queue self
             @ map (\<lambda>line. (stream_name self, rstrip_cr line))
                 (butlast (split_nl (buffer self @ message)))\<rparr>)"
  by (simp add: write_relay_def Let_def drain_lines)

lemma rstrip_cr_trailing: "rstrip_cr (s @ replicate n carriage_return) = rstrip_cr s"
proof -
  have "dropWhile (\<lambda>c. c = carriage_return) (replicate n carriage_return @ rev s)
      = dropWhile (\<lambda>c. c = carriage_return) (rev s)"
    by (rule dropWhile_append2) simp
  then show ?thesis by (simp add: rstrip_cr_def)
qed

lemma rstrip_cr_unchanged:
  assumes "line = [] \<or> last line \<noteq> carriage_return"
  shows "rstrip_cr line = line"
proof (cases "rev line")
  case Nil
  then show ?thesis by (simp add: rstrip_cr_def)
next
  case (Cons c cs)
  then have "line \<noteq> []" and "last line = c" by (auto simp: last_rev [symmetric] simp del: last_rev)
  with assms have "c \<noteq> carriage_return" by simp
  with Cons have "dropWhile (\<lambda>c. c = carriage_return) (rev line) = rev line" by simp
  then show ?thesis by (simp add: rstrip_cr_def)
qed

lemma write_relay_step:
  assumes "newline \<notin> set (buffer self)"
  shows "queue (snd (write_relay self m)) =
           queue self @ map (\<lambda>line. (stream_name self, rstrip_cr line))
                           (butlast (split_nl (buffer self @ m)))"
    and "buffer (snd (write_relay self m)) = last (split_nl (buffer self @ m))"
    and "stream_name (snd (write_relay self m)) = stream_name self"
    and "newline \<notin> set (buffer (snd (write_relay self m)))"
proof -
  show "queue (snd (write_relay self m)) =
           queue self @ map (\<lambda>line. (stream_name self, rstrip_cr line))
                           (butlast (split_nl (buffer self @ m)))"
  proof (cases "m = []")
    case True
    with assms show ?thesis by (simp add: write_relay_def split_nl_no_newline)
  next
    case False
    then show ?thesis by (simp add: write_relay_nonempty)
  qed
  show b: "buffer (snd (write_relay self m)) = last (split_nl (buffer self @ m))"
  proof (cases "m = []")
    case True
    with assms show ?thesis by (simp add: write_relay_def split_nl_no_newline)
  next
    case False
    then show ?thesis by (simp add: write_relay_nonempty)
  qed
  show "stream_name (snd (write_relay self m)) = stream_name self"
  proof (cases "m = []")
    case True
    then show ?thesis by (simp add: write_relay_def)
  next
    case False
    then show ?thesis by (simp add: write_relay_nonempty)
  qed
  show "newline \<notin> set (buffer (snd (write_relay self m)))"
    unfolding b by (rule last_split_nl_no_newline)
qed

lemma write_all_lines:
  "newline \<notin> set (buffer self) \<Longrightarrow>
   queue (write_all self messages) =
     queue self @ map (\<lambda>line. (stream_name self, rstrip_cr line))
                     (butlast (split_nl (buffer self @ concat messages)))
   \<and> buffer (write_all self messages) = last (split_nl (buffer self @ concat messages))"
proof (induction messages arbitrary: self)
  case Nil
  then show ?case by (simp add: write_all_def split_nl_no_newline)
next
  case (Cons m ms)
  let ?s = "snd (write_relay self m)"
  have w: "write_all self (m # ms) = write_all ?s ms" by (simp add: write_all_def)
  note st = write_relay_step [OF Cons.prems, of m]
  have sp: "split_nl (buffer self @ concat (m # ms)) =
      butlast (split_nl (buffer self @ m)) @ split_nl (buffer ?s @ concat ms)"
    using split_nl_append [of "buffer self @ m" "concat ms"] st(2) by simp
  have ne: "split_nl (buffer ?s @ concat ms) \<noteq> []" by (rule split_nl_nonempty)
  from Cons.IH [OF st(4)] show ?case
    unfolding w sp using ne st(1,3) by (simp add: butlast_append)
qed

text \<open>
  Claim C4, as the code has it. A \<open>write\<close> with a non-empty message forwards the message
  unchanged to the original stream and flushes it at once, appends the message to the
  buffer, and for every newline-terminated segment of the buffer enqueues
  \<open>(stream_name, line)\<close>, in the order of the text, where \<open>line\<close> is the segment with
  all its trailing carriage returns removed (a segment that does not end in one is kept
  as it is); the text after the last newline stays in the buffer. A \<open>write\<close> with an
  empty message returns 0 and does nothing: it neither writes to nor flushes the original
  stream. Hence for any sequence of writes on a stream whose buffer holds no newline, the
  queue is extended by the lines of the concatenated messages, in write order.
\<close>

theorem write_relay_lines:
  "write_relay self message =
     (if message = [] then (0, self)
      else (length message,
            self\<lparr>original_stream := original_stream self @ [SinkWrite message, SinkFlush],
                 buffer := last (split_nl (buffer self @ message)),
                 queue := queue self
                   @ map (\<lambda>line. (stream_name self, rstrip_cr line))
                       (butlast (split_nl (buffer self @ message)))\<rparr>))
   \<and> rstrip_cr (line @ replicate n carriage_return) = rstrip_cr line
   \<and> (line = [] \<or> last line \<noteq> carriage_return \<longrightarrow> rstrip_cr line = line)
   \<and> (newline \<notin> set (buffer self) \<longrightarrow>
        queue (write_all self messages) =
          queue self @ map (\<lambda>line. (stream_name self, rstrip_cr line))
                          (butlast (split_nl (buffer self @ concat messages)))
        \<and> buffer (write_all self messages) = last (split_nl (buffer self @ concat messages)))"
proof (cases "message = []")
  case True
  then show ?thesis
    using write_all_lines [of self messages] rstrip_cr_trailing [of line n]
      rstrip_cr_unchanged [of line]
    by (simp add: write_relay_def)
next
  case False
  then show ?thesis
    using write_relay_nonempty [of message self] write_all_lines [of self messages]
      rstrip_cr_trailing [of line n] rstrip_cr_unchanged [of line]
    by simp
qed

theorem write_relay_lines_witness:
  "newline \<notin> set (buffer fresh_stdout_relay)
   \<and> last ''ab'' \<noteq> carriage_return
   \<and> rstrip_cr (''ab'' @ [carriage_return, carriage_return]) = ''ab''
   \<and> write_relay fresh_stdout_relay (''ab'' @ [carriage_return, newline] @ ''c'') =
       (5, \<lparr>queue = [(''stdout'', ''ab'')],
            original_stream = [SinkWrite (''ab'' @ [carriage_return, newline] @ ''c''), SinkFlush],
            stream_name = ''stdout'', buffer = ''c''\<rparr>)
   \<and> queue (write_all fresh_stdout_relay
              [''ab'', ''c'' @ [carriage_return, newline] @ ''d'', [], [newline] @ ''e''])
       = [(''stdout'', ''abc''), (''stdout'', ''d'')]
   \<and> buffer (write_all fresh_stdout_relay
              [''ab'', ''c'' @ [carriage_return, newline] @ ''d'', [], [newline] @ ''e''])
       = ''e''"
  using write_relay_lines
    [where self = fresh_stdout_relay and message = "''ab'' @ [carriage_return, newline] @ ''c''"
       and messages = "[''ab'', ''c'' @ [carriage_return, newline] @ ''d'', [], [newline] @ ''e'']"
       and line = "''ab''" and n = 2]
  by (simp add: fresh_stdout_relay_def GuiLogStream_init_def rstrip_cr_def)

text \<open>The claim as it is worded fails at two inputs: the empty message does not reach the
  original stream, which is not flushed either; and of two trailing carriage returns
  both are removed, not one.\<close>

theorem write_relay_counterexample:
  "write_relay fresh_stdout_relay [] = (0, fresh_stdout_relay)
   \<and> original_stream (snd (write_relay fresh_stdout_relay [])) = []
   \<and> queue (snd (write_relay fresh_stdout_relay
                   (''a'' @ [carriage_return, carriage_return, newline])))
       = [(''stdout'', ''a'')]"
  by (simp add: write_relay_def Let_def drain_lines fresh_stdout_relay_def
      GuiLogStream_init_def rstrip_cr_def)

section \<open>Properties of the classification\<close>

text \<open>
  Claim C8. The category of a session record is to be one of \<open>productive\<close>,
  \<open>distracted\<close>, \<open>neutral\<close>, and the readers of the records (the statistics and the
  colouring of the table) compare with \<open>distracted\<close>. For an application listed under
  \<open>distracting_apps\<close> the lookup returns \<open>distracting\<close>, which is none of the three.
\<close>

theorem check_app_category_distracting:
  "check_app_category ''youtube''
      [''productive_apps'' \<mapsto> [''code''], ''distracting_apps'' \<mapsto> [''youtube'']]
     = Inr ''distracting''
   \<and> ''distracting'' \<notin> category_enum"
  by (simp add: check_app_category_def category_enum_def)

section \<open>Properties of the controller\<close>

lemma sys_stdout_write_fields [simp]:
  "is_running (sys_stdout_write s w) = is_running w"
  "daemon_thread (sys_stdout_write s w) = daemon_thread w"
  "daemon_loop (sys_stdout_write s w) = daemon_loop w"
  "daemon_task (sys_stdout_write s w) = daemon_task w"
  "stop_event (sys_stdout_write s w) = stop_event w"
  "current_status (sys_stdout_write s w) = current_status w"
  "console_stderr (sys_stdout_write s w) = console_stderr w"
  "gui_stderr (sys_stdout_write s w) = gui_stderr w"
  "calls (sys_stdout_write s w) = calls w"
  by (simp_all add: sys_stdout_write_def store_stdout_relay_def split: option.splits)

lemma sys_stderr_write_fields [simp]:
  "is_running (sys_stderr_write s w) = is_running w"
  "daemon_thread (sys_stderr_write s w) = daemon_thread w"
  "daemon_loop (sys_stderr_write s w) = daemon_loop w"
  "daemon_task (sys_stderr_write s w) = daemon_task w"
  "stop_event (sys_stderr_write s w) = stop_event w"
  "current_status (sys_stderr_write s w) = current_status w"
  "console_stdout (sys_stderr_write s w) = console_stdout w"
  "gui_stdout (sys_stderr_write s w) = gui_stdout w"
  "calls (sys_stderr_write s w) = calls w"
  by (simp_all add: sys_stderr_write_def store_stderr_relay_def split: option.splits)

lemma py_print_fields [simp]:
  "is_running (py_print s w) = is_running w"
  "daemon_thread (py_print s w) = daemon_thread w"
  "daemon_loop (py_print s w) = daemon_loop w"
  "daemon_task (py_print s w) = daemon_task w"
  "stop_event (py_print s w) = stop_event w"
  "current_status (py_print s w) = current_status w"
  "console_stderr (py_print s w) = console_stderr w"
  "gui_stderr (py_print s w) = gui_stderr w"
  "calls (py_print s w) = calls w"
  by (simp_all add: py_print_def)

lemma py_print_console:
  "gui_stdout w = None \<Longrightarrow>
   py_print s w = w\<lparr>console_stdout := console_stdout w @ [SinkWrite s, SinkWrite [newline]]\<rparr>"
  by (simp add: py_print_def sys_stdout_write_def)

lemma cancel_daemon_task_fields [simp]:
  "is_running (cancel_daemon_task env w) = is_running w"
  "daemon_thread (cancel_daemon_task env w) = daemon_thread w"
  "current_status (cancel_daemon_task env w) = current_status w"
  "calls (cancel_daemon_task env w) =
     calls w @ (if daemon_loop w \<noteq> None \<and> daemon_task w \<noteq> None then [CallSoonCancel] else [])"
  by (simp_all add: cancel_daemon_task_def Let_def split: option.splits)

lemma cleanup_fields [simp]:
  "is_running (cleanup env w) = is_running w"
  "daemon_thread (cleanup env w) = daemon_thread w"
  "current_status (cleanup env w) = current_status w"
  "calls (cleanup env w) =
     calls w @ UnblockWebsites
       # (if unblock_websites_exn env = None then [ApplyFocusPolicies ''productive''] else [])"
  by (simp_all add: cleanup_def Let_def split: option.splits)

lemma stop_body_result:
  "fst (stop_body env w) = (if daemon_thread w = Some Alive then join_exn env else None)"
  by (simp add: stop_body_def Let_def)

lemma stop_body_fields [simp]:
  "is_running (snd (stop_body env w)) = False"
  "current_status (snd (stop_body env w)) = ''Idle''"
  "daemon_thread (snd (stop_body env w)) = daemon_thread w"
  "calls (snd (stop_body env w)) =
     calls w @ (if daemon_loop w \<noteq> None \<and> daemon_task w \<noteq> None then [CallSoonCancel] else [])
       @ UnblockWebsites
       # (if unblock_websites_exn env = None then [ApplyFocusPolicies ''productive''] else [])
       @ (if daemon_thread w = Some Alive then [ThreadJoin] else [])"
  by (simp_all add: stop_body_def Let_def)

lemma start_body_result:
  "fst (start_body env w) = thread_start_exn env"
  by (simp add: start_body_def Let_def split: option.splits)

lemma start_body_fields [simp]:
  "is_running (snd (start_body env w)) = (thread_start_exn env = None \<or> is_running w)"
  "current_status (snd (start_body env w)) =
     (if thread_start_exn env = None then ''Focus Active'' else current_status w)"
  "calls (snd (start_body env w)) = calls w @ [ThreadStart]"
  "log_queue (snd (start_body env w)) = []"
  "gui_stdout (snd (start_body env w)) = gui_stdout w"
  "console_stdout (snd (start_body env w)) = console_stdout w"
  by (auto simp add: start_body_def Let_def split: option.splits)

lemma running_world_eq:
  "running_world =
     \<lparr>is_running = True, daemon_thread = Some Alive, daemon_loop = None, daemon_task = None,
      stop_event = False, current_status = ''Focus Active'', log_queue = [],
      console_stdout = [], console_stderr = [], gui_stdout = None, gui_stderr = None,
      calls = [InitDb, ThreadStart]\<rparr>"
  by (simp add: example_defs start_focus_def start_body_def)

lemma flush_gui_fields [simp]:
  "is_running (flush_gui_stdout w) = is_running w"
  "current_status (flush_gui_stdout w) = current_status w"
  "calls (flush_gui_stdout w) = calls w"
  "is_running (flush_gui_stderr w) = is_running w"
  "current_status (flush_gui_stderr w) = current_status w"
  "calls (flush_gui_stderr w) = calls w"
  by (simp_all add: flush_gui_stdout_def flush_gui_stderr_def store_stdout_relay_def
      store_stderr_relay_def split: option.splits)

lemma run_daemon_fields [simp]:
  "is_running (run_daemon_enter w) = is_running w"
  "current_status (run_daemon_enter w) = current_status w"
  "calls (run_daemon_enter w) = calls w"
  "is_running (run_daemon_exit outcome w) = is_running w"
  "current_status (run_daemon_exit outcome w) = current_status w"
  "calls (run_daemon_exit outcome w) = calls w"
  "daemon_thread (run_daemon_exit outcome w) = Some Finished"
  "daemon_loop (run_daemon_exit outcome w) = None"
  "daemon_task (run_daemon_exit outcome w) = None"
  by (simp_all add: run_daemon_enter_def run_daemon_exit_def Let_def split: daemon_outcome.splits)

lemma get_recent_sessions_fields [simp]:
  "is_running (snd (get_recent_sessions env limit w)) = is_running w"
  "current_status (snd (get_recent_sessions env limit w)) = current_status w"
  by (simp_all add: get_recent_sessions_def split: prod.splits option.splits)

lemma start_focus_fields:
  "is_running (snd (start_focus env w)) = (is_running w \<or> thread_start_exn env = None)"
  "current_status (snd (start_focus env w)) =
     (if \<not> is_running w \<and> thread_start_exn env = None then ''Focus Active''
      else current_status w)"
proof -
  obtain x w' where b: "start_body env w = (x, w')" by (cases "start_body env w")
  have x: "x = thread_start_exn env" using start_body_result [of env w] b by simp
  have f: "is_running w' = (thread_start_exn env = None \<or> is_running w)"
    "current_status w' = (if thread_start_exn env = None then ''Focus Active'' else current_status w)"
    using start_body_fields(1,2) [of env w] b by simp_all
  show "is_running (snd (start_focus env w)) = (is_running w \<or> thread_start_exn env = None)"
    using b x f by (auto simp: start_focus_def split: option.splits)
  show "current_status (snd (start_focus env w)) =
     (if \<not> is_running w \<and> thread_start_exn env = None then ''Focus Active''
      else current_status w)"
    using b x f by (auto simp: start_focus_def split: option.splits)
qed

lemma stop_focus_fields:
  "is_running (snd (stop_focus env w)) = False"
  "current_status (snd (stop_focus env w)) = (if is_running w then ''Idle'' else current_status w)"
proof -
  obtain x w' where b: "stop_body env w = (x, w')" by (cases "stop_body env w")
  have f: "is_running w' = False" "current_status w' = ''Idle''"
    using stop_body_fields(1,2) [of env w] b by simp_all
  show "is_running (snd (stop_focus env w)) = False"
    using b f by (auto simp: stop_focus_def split: option.splits)
  show "current_status (snd (stop_focus env w)) = (if is_running w then ''Idle'' else current_status w)"
    using b f by (auto simp: stop_focus_def split: option.splits)
qed

lemma start_focus_result:
  "fst (start_focus env w) = Inr (\<not> is_running w \<and> thread_start_exn env = None)"
  using start_body_result [of env w]
  by (cases "start_body env w") (auto simp: start_focus_def split: option.splits)

lemma stop_focus_result:
  "fst (stop_focus env w) =
     Inr (is_running w \<and> (daemon_thread w = Some Alive \<longrightarrow> join_exn env = None))"
  using stop_body_result [of env w]
  by (cases "stop_body env w") (auto simp: stop_focus_def split: option.splits if_splits)

lemma stop_focus_calls:
  "is_running w \<Longrightarrow>
   calls (snd (stop_focus env w)) =
     calls w @ (if daemon_loop w \<noteq> None \<and> daemon_task w \<noteq> None then [CallSoonCancel] else [])
       @ UnblockWebsites
       # (if unblock_websites_exn env = None then [ApplyFocusPolicies ''productive''] else [])
       @ (if daemon_thread w = Some Alive then [ThreadJoin] else [])"
  using stop_body_fields(4) [of env w]
  by (cases "stop_body env w") (auto simp: stop_focus_def split: option.splits)

lemma start_focus_failure_state:
  assumes "\<not> is_running w" and "thread_start_exn env = Some e"
  shows "snd (start_focus env w) =
     py_print (''[GUI] Failed to start focus mode: '' @ str_of_exn e) (snd (start_body env w))"
  using assms start_body_result [of env w]
  by (cases "start_body env w") (auto simp: start_focus_def split: option.splits)

lemma stop_focus_failure_state:
  assumes "is_running w" and "fst (stop_body env w) = Some e"
  shows "snd (stop_focus env w) =
     (py_print (''[GUI] Failed to stop focus mode: '' @ str_of_exn e) (snd (stop_body env w)))
       \<lparr>is_running := False, current_status := ''Idle''\<rparr>"
  using assms by (cases "stop_body env w") (simp add: stop_focus_def)

lemma cancel_daemon_task_failure:
  assumes "daemon_loop w \<noteq> None" and "daemon_task w \<noteq> None"
      and "call_soon_threadsafe_exn env = Some e"
  shows "cancel_daemon_task env w =
     py_print (''[GUI] Error cancelling task: '' @ str_of_exn e)
       (w\<lparr>calls := calls w @ [CallSoonCancel]\<rparr>)"
  using assms by (simp add: cancel_daemon_task_def)

lemma cleanup_failure:
  assumes "unblock_websites_exn env = Some e"
  shows "cleanup env w =
     py_print (''[GUI] Warning: Error during cleanup: '' @ str_of_exn e)
       (w\<lparr>calls := calls w @ [UnblockWebsites]\<rparr>)"
  using assms by (simp add: cleanup_def)

text \<open>
  Claim C2. A \<open>start_focus\<close> on a controller that is running returns \<open>False\<close> and
  leaves the whole state as it is (flag, status, thread, loop and task handles, log queue,
  and everything else); in particular a \<open>start_focus\<close> that follows a successful
  \<open>start_focus\<close> returns \<open>False\<close> and changes nothing, whatever the environment does.
\<close>

theorem start_focus_while_running:
  "(is_running self \<longrightarrow> start_focus env self = (Inr False, self)) \<and>
   (fst (start_focus env self) = Inr True \<longrightarrow>
      start_focus env' (snd (start_focus env self)) = (Inr False, snd (start_focus env self)))"
proof -
  have running: "start_focus e w = (Inr False, w)" if "is_running w" for e w
    using that by (simp add: start_focus_def)
  have "is_running (snd (start_focus env self))" if "fst (start_focus env self) = Inr True"
  proof (cases "is_running self")
    case True
    with that show ?thesis by (simp add: start_focus_def)
  next
    case False
    with that show ?thesis
      using start_body_fields(1) [of env self] start_body_result [of env self]
      by (cases "start_body env self") (auto simp: start_focus_def split: option.splits)
  qed
  with running show ?thesis by blast
qed

theorem start_focus_while_running_witness:
  "is_running running_world
   \<and> start_focus start_ok running_world = (Inr False, running_world)
   \<and> fst (start_focus start_ok idle_world) = Inr True
   \<and> start_focus start_fails (snd (start_focus start_ok idle_world))
       = (Inr False, snd (start_focus start_ok idle_world))"
  using start_focus_while_running [of running_world start_ok]
    start_focus_while_running [of idle_world start_ok start_fails]
  by (simp add: example_defs start_focus_def start_body_def)

text \<open>
  Claim C10. If \<open>stop_focus\<close> is called on a running controller and an exception leaves
  the body of its \<open>try\<close> block, then \<open>stop_focus\<close> returns \<open>False\<close>, and the
  controller is idle afterwards (\<open>is_running\<close> is \<open>False\<close> and the status is
  \<open>Idle\<close>): the state is not the one before the call.
\<close>

theorem stop_focus_failure_goes_idle:
  assumes "is_running self" and "fst (stop_body env self) = Some e"
  shows "fst (stop_focus env self) = Inr False
     \<and> \<not> is_running (snd (stop_focus env self))
     \<and> get_status (snd (stop_focus env self)) = ''Idle''
     \<and> snd (stop_focus env self) \<noteq> self"
proof -
  obtain w' where b: "stop_body env self = (Some e, w')"
    using assms(2) by (cases "stop_body env self") simp
  have r: "stop_focus env self =
      (Inr False, (py_print (''[GUI] Failed to stop focus mode: '' @ str_of_exn e) w')
                    \<lparr>is_running := False, current_status := ''Idle''\<rparr>)"
    using assms(1) b by (simp add: stop_focus_def)
  have "\<not> is_running (snd (stop_focus env self))" by (simp add: r)
  with assms(1) have "snd (stop_focus env self) \<noteq> self" by auto
  then show ?thesis by (simp add: r get_status_def)
qed

theorem stop_focus_failure_goes_idle_witness:
  "is_running running_world
   \<and> fst (stop_body join_fails running_world)
       = Some (Exn RuntimeError ''cannot join current thread'')
   \<and> fst (stop_focus join_fails running_world) = Inr False
   \<and> \<not> is_running (snd (stop_focus join_fails running_world))
   \<and> get_status (snd (stop_focus join_fails running_world)) = ''Idle''
   \<and> snd (stop_focus join_fails running_world) \<noteq> running_world"
  using stop_focus_failure_goes_idle
    [of running_world join_fails "Exn RuntimeError ''cannot join current thread''"]
  by (simp add: running_world_eq stop_body_result join_fails_def stop_ok_def)

lemma reachable_status:
  "reachable w \<Longrightarrow>
   (current_status w = ''Idle'' \<or> current_status w = ''Focus Active'')
   \<and> (current_status w = ''Focus Active'') = is_running w"
proof (induction rule: reachable.induct)
  case (init init_db_exn)
  then show ?case by (simp add: FocusController_init_def Let_def split: option.splits)
next
  case (start w env)
  then show ?case by (auto simp: start_focus_fields)
next
  case (stop w senv)
  then show ?case by (auto simp: stop_focus_fields)
qed auto

text \<open>
  Claim C7. In every state that the controller can reach, \<open>get_status\<close> returns one of
  two values, \<open>Idle\<close> or \<open>Focus Active\<close> (the label of the running state), and no
  other; it is \<open>Focus Active\<close> exactly when the last transition left the controller
  running, whatever the daemon thread has done since.
\<close>

theorem get_status_idle_or_running:
  "reachable self \<Longrightarrow>
   (get_status self = ''Idle'' \<or> get_status self = ''Focus Active'')
   \<and> (get_status self = ''Focus Active'') = is_running self
   \<and> (get_status self = ''Idle'') = (\<not> is_running self)"
  using reachable_status [of self] by (auto simp: get_status_def)

theorem get_status_idle_or_running_witness:
  "reachable running_world \<and> get_status running_world = ''Focus Active''
   \<and> is_running running_world
   \<and> reachable (snd (stop_focus stop_ok running_world))
   \<and> get_status (snd (stop_focus stop_ok running_world)) = ''Idle''"
proof -
  have r: "reachable running_world"
    unfolding running_world_def idle_world_def by (rule reachable.start) (rule reachable.init)
  then have r': "reachable (snd (stop_focus stop_ok running_world))" by (rule reachable.stop)
  have "is_running running_world" by (simp add: running_world_eq)
  with r r' get_status_idle_or_running [OF r] get_status_idle_or_running [OF r']
  show ?thesis by (simp add: stop_focus_fields)
qed

text \<open>
  Claim C5, as the code has it. Neither \<open>start_focus\<close> nor \<open>stop_focus\<close> raises: each
  returns a boolean. \<open>start_focus\<close> returns \<open>False\<close> exactly when the controller is
  running or starting the thread fails; \<open>stop_focus\<close> returns \<open>False\<close> exactly when
  the controller is idle or joining the live thread fails. A failure of the cancellation
  request or of the cleanup calls is caught and printed, and \<open>stop_focus\<close> still returns
  \<open>True\<close>. The message of a failure is printed to \<open>sys.stdout\<close>: it reaches the log
  queue only while a relay is installed there; otherwise (as when starting the thread
  fails on a fresh controller) it goes to the console alone and the log queue stays empty.
\<close>

theorem start_stop_never_raise:
  "fst (start_focus env self) = Inr (\<not> is_running self \<and> thread_start_exn env = None)
   \<and> fst (stop_focus senv self) =
       Inr (is_running self \<and> (daemon_thread self = Some Alive \<longrightarrow> join_exn senv = None))
   \<and> (\<not> is_running self \<and> thread_start_exn env = Some e \<longrightarrow>
        snd (start_focus env self) =
          py_print (''[GUI] Failed to start focus mode: '' @ str_of_exn e)
            (snd (start_body env self)))
   \<and> (is_running self \<and> fst (stop_body senv self) = Some e \<longrightarrow>
        snd (stop_focus senv self) =
          (py_print (''[GUI] Failed to stop focus mode: '' @ str_of_exn e)
             (snd (stop_body senv self)))
            \<lparr>is_running := False, current_status := ''Idle''\<rparr>)
   \<and> (daemon_loop self \<noteq> None \<and> daemon_task self \<noteq> None
        \<and> call_soon_threadsafe_exn senv = Some e \<longrightarrow>
        cancel_daemon_task senv self =
          py_print (''[GUI] Error cancelling task: '' @ str_of_exn e)
            (self\<lparr>calls := calls self @ [CallSoonCancel]\<rparr>))
   \<and> (unblock_websites_exn senv = Some e \<longrightarrow>
        cleanup senv self =
          py_print (''[GUI] Warning: Error during cleanup: '' @ str_of_exn e)
            (self\<lparr>calls := calls self @ [UnblockWebsites]\<rparr>))
   \<and> (\<not> is_running self \<and> thread_start_exn env = Some e \<and> gui_stdout self = None \<longrightarrow>
        log_queue (snd (start_focus env self)) = []
        \<and> console_stdout (snd (start_focus env self)) =
            console_stdout self
              @ [SinkWrite (''[GUI] Failed to start focus mode: '' @ str_of_exn e),
                 SinkWrite [newline]])"
proof -
  have "log_queue (snd (start_focus env self)) = []
        \<and> console_stdout (snd (start_focus env self)) =
            console_stdout self
              @ [SinkWrite (''[GUI] Failed to start focus mode: '' @ str_of_exn e),
                 SinkWrite [newline]]"
    if "\<not> is_running self" "thread_start_exn env = Some e" "gui_stdout self = None"
    using that start_focus_failure_state [of self env e]
    by (simp add: py_print_console)
  then show ?thesis
    using start_focus_result [of env self] stop_focus_result [of senv self]
      start_focus_failure_state [of self env e] stop_focus_failure_state [of self senv e]
      cancel_daemon_task_failure [of self senv e] cleanup_failure [of senv e self]
    by blast
qed

theorem start_stop_never_raise_witness:
  "\<not> is_running idle_world
   \<and> thread_start_exn start_fails = Some (Exn RuntimeError ''cannot start new thread'')
   \<and> gui_stdout idle_world = None
   \<and> fst (start_focus start_fails idle_world) = Inr False
   \<and> log_queue (snd (start_focus start_fails idle_world)) = []
   \<and> console_stdout (snd (start_focus start_fails idle_world)) =
        [SinkWrite ''[GUI] Failed to start focus mode: cannot start new thread'',
         SinkWrite [newline]]
   \<and> fst (stop_focus join_fails running_world) = Inr False
   \<and> console_stdout (snd (stop_focus join_fails running_world)) =
        [SinkWrite ''[GUI] Failed to stop focus mode: cannot join current thread'',
         SinkWrite [newline]]
   \<and> fst (stop_focus cleanup_fails running_world) = Inr True
   \<and> console_stdout (cleanup cleanup_fails running_world) =
        [SinkWrite ''[GUI] Warning: Error during cleanup: [Errno 13] Permission denied'',
         SinkWrite [newline]]
   \<and> log_queue (cancel_daemon_task cancel_fails (run_daemon_enter running_world)) =
        [(''stdout'', ''[GUI] Error cancelling task: Event loop is closed'')]"
  using start_stop_never_raise
    [where env = start_fails and self = idle_world and senv = stop_ok
       and e = "Exn RuntimeError ''cannot start new thread''"]
    start_stop_never_raise
    [where env = start_ok and self = running_world and senv = join_fails
       and e = "Exn RuntimeError ''cannot join current thread''"]
    start_stop_never_raise
    [where env = start_ok and self = running_world and senv = cleanup_fails
       and e = "Exn OSError ''[Errno 13] Permission denied''"]
    start_stop_never_raise
    [where env = start_ok and self = "run_daemon_enter running_world" and senv = cancel_fails
       and e = "Exn RuntimeError ''Event loop is closed''"]
  by (simp add: running_world_eq idle_world_def FocusController_init_def start_fails_def
      join_fails_def cleanup_fails_def cancel_fails_def stop_ok_def start_body_def
      stop_body_def cancel_daemon_task_def cleanup_def run_daemon_enter_def py_print_def
      sys_stdout_write_def store_stdout_relay_def stdout_relay_def write_relay_def
      drain.simps split_first_def rstrip_cr_def)

text \<open>The claim as it is worded fails: a failing cleanup, or a failing cancellation
  request, is caught and \<open>stop_focus\<close> returns \<open>True\<close>, not \<open>False\<close>; and the message
  of a failed start on a fresh controller is not in the log queue.\<close>

theorem start_stop_failure_counterexample:
  "fst (stop_focus cleanup_fails running_world) = Inr True
   \<and> fst (stop_focus cancel_fails (run_daemon_enter running_world)) = Inr True
   \<and> fst (start_focus start_fails idle_world) = Inr False
   \<and> log_queue (snd (start_focus start_fails idle_world)) = []"
  by (simp add: stop_focus_result start_focus_result start_focus_failure_state
      py_print_console running_world_eq run_daemon_enter_def idle_world_def
      FocusController_init_def start_fails_def cancel_fails_def cleanup_fails_def stop_ok_def)

text \<open>
  Claim C6. When \<open>stop_focus\<close> is called on a running controller, it calls
  \<open>unblock_websites\<close> exactly once, and \<open>apply_focus_policies("productive")\<close>
  exactly once after it when \<open>unblock_websites\<close> returned, whether or not the
  cancellation request fails; and it returns \<open>True\<close>, unless joining the thread raises.
  And when a controller is started, its daemon is cancelled at once (the daemon thread
  enters and leaves with \<open>CancelledError\<close>) and it is then stopped, the stop returns
  \<open>True\<close> and \<open>unblock_websites\<close> has been called exactly once since before the
  start.
\<close>

theorem stop_focus_cleanup:
  "(is_running self \<longrightarrow>
      count_list (calls (snd (stop_focus senv self))) UnblockWebsites
          = count_list (calls self) UnblockWebsites + 1
      \<and> (unblock_websites_exn senv = None \<longrightarrow>
           count_list (calls (snd (stop_focus senv self))) (ApplyFocusPolicies ''productive'')
             = count_list (calls self) (ApplyFocusPolicies ''productive'') + 1)
      \<and> ((daemon_thread self = Some Alive \<longrightarrow> join_exn senv = None) \<longrightarrow>
           fst (stop_focus senv self) = Inr True))
   \<and> (\<not> is_running self \<and> thread_start_exn env = None \<longrightarrow>
        fst (start_focus env self) = Inr True
        \<and> fst (stop_focus senv
                 (run_daemon_exit Cancelled (run_daemon_enter (snd (start_focus env self)))))
            = Inr True
        \<and> count_list
             (calls (snd (stop_focus senv
                (run_daemon_exit Cancelled (run_daemon_enter (snd (start_focus env self)))))))
             UnblockWebsites
            = count_list (calls self) UnblockWebsites + 1)"
proof -
  have one: "count_list (calls (snd (stop_focus e w))) UnblockWebsites
          = count_list (calls w) UnblockWebsites + 1
      \<and> (unblock_websites_exn e = None \<longrightarrow>
           count_list (calls (snd (stop_focus e w))) (ApplyFocusPolicies ''productive'')
             = count_list (calls w) (ApplyFocusPolicies ''productive'') + 1)
      \<and> ((daemon_thread w = Some Alive \<longrightarrow> join_exn e = None) \<longrightarrow>
           fst (stop_focus e w) = Inr True)"
    if "is_running w" for e w
    using that by (simp add: stop_focus_result stop_focus_calls)
  have two: "fst (start_focus env self) = Inr True
        \<and> fst (stop_focus senv
                 (run_daemon_exit Cancelled (run_daemon_enter (snd (start_focus env self)))))
            = Inr True
        \<and> count_list
             (calls (snd (stop_focus senv
                (run_daemon_exit Cancelled (run_daemon_enter (snd (start_focus env self)))))))
             UnblockWebsites
            = count_list (calls self) UnblockWebsites + 1"
    if "\<not> is_running self" "thread_start_exn env = None"
  proof -
    let ?w1 = "snd (start_focus env self)"
    let ?w2 = "run_daemon_exit Cancelled (run_daemon_enter ?w1)"
    have r: "is_running ?w2" using that by (simp add: start_focus_fields)
    have c1: "calls ?w1 = calls self @ [ThreadStart]"
      using that start_body_fields(3) [of env self] start_body_result [of env self]
      by (cases "start_body env self") (auto simp: start_focus_def split: option.splits)
    have c: "calls ?w2 = calls self @ [ThreadStart]" using c1 by simp
    have "daemon_thread ?w2 \<noteq> Some Alive" by simp
    with r one [of ?w2 senv] c that show ?thesis
      by (simp add: start_focus_result)
  qed
  from one [of self senv] two show ?thesis by blast
qed

theorem stop_focus_cleanup_witness:
  "is_running (run_daemon_enter running_world)
   \<and> call_soon_threadsafe_exn cancel_fails \<noteq> None
   \<and> CallSoonCancel \<in> set (calls (snd (stop_focus cancel_fails (run_daemon_enter running_world))))
   \<and> fst (stop_focus cancel_fails (run_daemon_enter running_world)) = Inr True
   \<and> count_list (calls (snd (stop_focus cancel_fails (run_daemon_enter running_world))))
        UnblockWebsites = 1
   \<and> count_list (calls (snd (stop_focus cancel_fails (run_daemon_enter running_world))))
        (ApplyFocusPolicies ''productive'') = 1
   \<and> count_list (calls (snd (stop_focus join_fails (run_daemon_enter running_world))))
        UnblockWebsites = 1
   \<and> \<not> is_running idle_world
   \<and> fst (stop_focus stop_ok
            (run_daemon_exit Cancelled (run_daemon_enter (snd (start_focus start_ok idle_world)))))
       = Inr True
   \<and> count_list
        (calls (snd (stop_focus stop_ok
           (run_daemon_exit Cancelled (run_daemon_enter (snd (start_focus start_ok idle_world)))))))
        UnblockWebsites = 1"
  using stop_focus_cleanup [where self = "run_daemon_enter running_world" and senv = cancel_fails]
    stop_focus_cleanup [where self = "run_daemon_enter running_world" and senv = join_fails]
    stop_focus_cleanup [where self = idle_world and senv = stop_ok and env = start_ok]
  by (simp add: stop_focus_calls running_world_eq run_daemon_enter_def idle_world_def
      FocusController_init_def start_ok_def cancel_fails_def join_fails_def stop_ok_def)

section \<open>Properties of the session query\<close>

lemma length_derived_durations [simp]: "length (derived_durations newer ts) = length ts"
  by (induction ts arbitrary: newer) simp_all

lemma nth_derived_durations:
  "i < length ts \<Longrightarrow>
   derived_durations newer ts ! i = total_minutes (if i = 0 then newer else ts ! (i - 1)) (ts ! i)"
proof (induction ts arbitrary: newer i)
  case Nil
  then show ?case by simp
next
  case (Cons t ts)
  show ?case
  proof (cases i)
    case 0
    then show ?thesis by simp
  next
    case (Suc j)
    with Cons.prems have "j < length ts" by simp
    from Cons.IH [OF this, of t] Suc show ?thesis by (cases j) simp_all
  qed
qed

lemma derived_durations_positive:
  "sorted_wrt (>) (newer # ts) \<Longrightarrow> \<forall>d \<in> set (derived_durations newer ts). 0 < d"
  by (induction ts arbitrary: newer) (auto simp: total_minutes_def)

lemma for_rows_all_return:
  "(\<And>i. i \<in> set is \<Longrightarrow> body i = Inr (g i)) \<Longrightarrow>
   for_rows body is acc = (None, acc @ concat (map g is))"
  by (induction "is" arbitrary: acc) simp_all

lemma concat_map_if_singleton:
  "concat (map (\<lambda>x. if P x then [f x] else []) xs) = map f (filter P xs)"
  by (induction xs) simp_all

lemma for_rows_raises_from_body:
  "for_rows body is acc = (Some e, ss) \<Longrightarrow> \<exists>i \<in> set is. body i = Inl e"
  by (induction "is" arbitrary: acc) (auto split: sum.splits)

lemma parsed_rows_nth:
  assumes "map timestamp_of rows = map Str texts"
      and "map (strptime env) texts = map Inr instants"
      and "i < length rows"
  shows "length instants = length rows"
    and "timestamp_of (rows ! i) = Str (texts ! i)"
    and "strptime env (texts ! i) = Inr (instants ! i)"
proof -
  have l1: "length texts = length rows" using assms(1) by (metis length_map)
  have l2: "length instants = length texts" using assms(2) by (metis length_map)
  show "length instants = length rows" using l1 l2 by simp
  have "map timestamp_of rows ! i = map Str texts ! i" using assms(1) by simp
  then show "timestamp_of (rows ! i) = Str (texts ! i)" using assms(3) l1 by simp
  have "map (strptime env) texts ! i = map Inr instants ! i" using assms(2) by simp
  then show "strptime env (texts ! i) = Inr (instants ! i)" using assms(3) l1 l2 by simp
qed

lemma duration_focus_log_parsed:
  assumes "map timestamp_of rows = map Str texts"
      and "map (strptime env) texts = map Inr instants"
      and "i < length rows"
  shows "duration_focus_log env rows i = Inr (derived_durations (now env) instants ! i)"
proof -
  note p = parsed_rows_nth [OF assms(1,2)]
  have i: "i < length instants" using p(1) [OF assms(3)] assms(3) by simp
  have a: "strptime_cell env (timestamp_of (rows ! i)) = Inr (instants ! i)"
    using p(2,3) [OF assms(3)] by (simp add: strptime_cell_def)
  show ?thesis
  proof (cases "i = 0")
    case True
    with a i show ?thesis by (simp add: duration_focus_log_def nth_derived_durations)
  next
    case False
    then have "i - 1 < length rows" using assms(3) by simp
    from p(2,3) [OF this] have "strptime_cell env (timestamp_of (rows ! (i - 1))) = Inr (instants ! (i - 1))"
      by (simp add: strptime_cell_def)
    with a i False show ?thesis by (simp add: duration_focus_log_def nth_derived_durations)
  qed
qed

lemma duration_focus_sessions_parsed:
  assumes "map timestamp_of rows = map Str texts"
      and "map (strptime env) texts = map Inr instants"
      and "i < length rows"
  shows "duration_focus_sessions env rows i = Inr (derived_durations (now env) instants ! i)"
proof -
  note p = parsed_rows_nth [OF assms(1,2)]
  have i: "i < length instants" using p(1) [OF assms(3)] assms(3) by simp
  have a: "timestamp_value env (timestamp_of (rows ! i)) = Inr (DateTime (instants ! i))"
    using p(2,3) [OF assms(3)] by (simp add: timestamp_value_def)
  show ?thesis
  proof (cases "i = 0")
    case True
    with a i show ?thesis
      by (simp add: duration_focus_sessions_def minutes_between_def nth_derived_durations)
  next
    case False
    then have "i - 1 < length rows" using assms(3) by simp
    from p(2,3) [OF this]
    have "timestamp_value env (timestamp_of (rows ! (i - 1))) = Inr (DateTime (instants ! (i - 1)))"
      by (simp add: timestamp_value_def)
    with a i False show ?thesis
      by (simp add: duration_focus_sessions_def minutes_between_def nth_derived_durations)
  qed
qed

lemma kept_sessions:
  assumes "length ds = length rows"
  shows "concat (map (\<lambda>i. if 0 < ds ! i then [with_duration (rows ! i) (ds ! i)] else [])
                  [0..<length rows])
         = filter (\<lambda>s. 0 < snd (snd s)) (map2 with_duration rows ds)"
proof -
  have m: "map2 with_duration rows ds = map (\<lambda>i. with_duration (rows ! i) (ds ! i)) [0..<length rows]"
    using assms by (intro nth_equalityI) simp_all
  have "concat (map (\<lambda>i. if 0 < ds ! i then [with_duration (rows ! i) (ds ! i)] else [])
                  [0..<length rows])
      = map (\<lambda>i. with_duration (rows ! i) (ds ! i)) (filter (\<lambda>i. 0 < ds ! i) [0..<length rows])"
    by (rule concat_map_if_singleton)
  also have "\<dots> = filter (\<lambda>s. 0 < snd (snd s))
                     (map (\<lambda>i. with_duration (rows ! i) (ds ! i)) [0..<length rows])"
    by (simp add: filter_map o_def with_duration_def)
  finally show ?thesis by (simp only: m)
qed

lemma query_focus_log_parsed:
  assumes "select_focus_log env limit = Inr rows"
      and "map timestamp_of rows = map Str texts"
      and "map (strptime env) texts = map Inr instants"
  shows "query_focus_log env limit [] =
     (None, filter (\<lambda>s. 0 < snd (snd s))
              (map2 with_duration rows (derived_durations (now env) instants)))"
proof -
  let ?ds = "derived_durations (now env) instants"
  let ?g = "\<lambda>i. if 0 < ?ds ! i then [with_duration (rows ! i) (?ds ! i)] else []"
  have len: "length ?ds = length rows" using assms(2,3) by (metis length_derived_durations length_map)
  have "append_focus_log env rows i = Inr (?g i)" if "i \<in> set [0..<length rows]" for i
  proof -
    from that have "i < length rows" by simp
    from duration_focus_log_parsed [OF assms(2,3) this] show ?thesis
      by (cases "rows ! i") (simp add: append_focus_log_def with_duration_def)
  qed
  then have "for_rows (append_focus_log env rows) [0..<length rows] [] =
      (None, [] @ concat (map ?g [0..<length rows]))"
    by (rule for_rows_all_return)
  then show ?thesis
    using assms(1) kept_sessions [OF len] by (simp add: query_focus_log_def)
qed

lemma query_focus_sessions_parsed:
  assumes "select_focus_sessions env limit = Inr rows"
      and "map timestamp_of rows = map Str texts"
      and "map (strptime env) texts = map Inr instants"
  shows "query_focus_sessions env limit [] =
     (None, filter (\<lambda>s. 0 < snd (snd s))
              (map2 with_duration rows (derived_durations (now env) instants)))"
proof -
  let ?ds = "derived_durations (now env) instants"
  let ?g = "\<lambda>i. if 0 < ?ds ! i then [with_duration (rows ! i) (?ds ! i)] else []"
  have len: "length ?ds = length rows" using assms(2,3) by (metis length_derived_durations length_map)
  have "append_focus_sessions env rows i = Inr (?g i)" if "i \<in> set [0..<length rows]" for i
  proof -
    from that have "i < length rows" by simp
    from duration_focus_sessions_parsed [OF assms(2,3) this] show ?thesis
      by (cases "rows ! i") (simp add: append_focus_sessions_def with_duration_def)
  qed
  then have "for_rows (append_focus_sessions env rows) [0..<length rows] [] =
      (None, [] @ concat (map ?g [0..<length rows]))"
    by (rule for_rows_all_return)
  then show ?thesis
    using assms(1) kept_sessions [OF len] by (simp add: query_focus_sessions_def)
qed

lemma fetch_sessions_parsed:
  assumes "connect_exn env = None"
      and "select_focus_log env limit = Inr rows
           \<or> (select_focus_log env limit = Inl (Exn OperationalError m)
              \<and> select_focus_sessions env limit = Inr rows)"
      and "map timestamp_of rows = map Str texts"
      and "map (strptime env) texts = map Inr instants"
  shows "fetch_sessions env limit =
     (None, filter (\<lambda>s. 0 < snd (snd s))
              (map2 with_duration rows (derived_durations (now env) instants)))"
  using assms(2)
proof
  assume "select_focus_log env limit = Inr rows"
  from query_focus_log_parsed [OF this assms(3,4)] assms(1) show ?thesis
    by (simp add: fetch_sessions_def)
next
  assume b: "select_focus_log env limit = Inl (Exn OperationalError m)
              \<and> select_focus_sessions env limit = Inr rows"
  then have "query_focus_log env limit [] = (Some (Exn OperationalError m), [])"
    by (simp add: query_focus_log_def)
  with query_focus_sessions_parsed [OF conjunct2 [OF b] assms(3,4)] assms(1) show ?thesis
    by (simp add: fetch_sessions_def)
qed

lemma get_recent_sessions_parsed:
  assumes "connect_exn env = None"
      and "select_focus_log env limit = Inr rows
           \<or> (select_focus_log env limit = Inl (Exn OperationalError m)
              \<and> select_focus_sessions env limit = Inr rows)"
      and "map timestamp_of rows = map Str texts"
      and "map (strptime env) texts = map Inr instants"
  shows "get_recent_sessions env limit self =
     (Inr (filter (\<lambda>s. 0 < snd (snd s))
              (map2 with_duration rows (derived_durations (now env) instants))), self)"
  using fetch_sessions_parsed [OF assms] by (simp add: get_recent_sessions_def)

lemma strptime_cell_raises:
  "strptime_cell env c = Inl e \<Longrightarrow> exn_class_of e = ValueError \<or> exn_class_of e = TypeError"
  by (auto simp: strptime_cell_def split: cell.splits sum.splits)

lemma duration_focus_log_raises:
  assumes "duration_focus_log env rows i = Inl e"
  shows "exn_class_of e = ValueError \<or> exn_class_of e = TypeError"
proof (cases "strptime_cell env (timestamp_of (rows ! i))")
  case (Inl e')
  with assms have "e = e'" by (simp add: duration_focus_log_def)
  with Inl show ?thesis by (simp add: strptime_cell_raises)
next
  case (Inr session_time)
  show ?thesis
  proof (cases "strptime_cell env (timestamp_of (rows ! (i - 1)))")
    case (Inl e')
    with assms Inr have "e = e'" by (simp add: duration_focus_log_def split: if_splits)
    with Inl show ?thesis by (simp add: strptime_cell_raises)
  next
    case (Inr next_time)
    with assms \<open>strptime_cell env (timestamp_of (rows ! i)) = Inr session_time\<close>
    show ?thesis by (simp add: duration_focus_log_def split: if_splits)
  qed
qed

lemma append_focus_log_raises:
  assumes "append_focus_log env rows i = Inl e"
  shows "exn_class_of e = TypeError"
proof (cases "duration_focus_log env rows i")
  case (Inl e')
  with assms have "e = e'" and "exn_class_of e' \<noteq> ValueError"
    by (simp_all add: append_focus_log_def split: prod.splits if_splits)
  with duration_focus_log_raises [OF Inl] show ?thesis by simp
next
  case (Inr d)
  with assms show ?thesis by (simp add: append_focus_log_def split: prod.splits)
qed

lemma query_focus_log_raises:
  assumes "select_focus_log env limit = Inr rows"
      and "query_focus_log env limit acc = (Some e, ss)"
  shows "exn_class_of e = TypeError"
proof -
  from assms have "for_rows (append_focus_log env rows) [0..<length rows] acc = (Some e, ss)"
    by (simp add: query_focus_log_def)
  then obtain i where "append_focus_log env rows i = Inl e"
    by (blast dest: for_rows_raises_from_body)
  then show ?thesis by (rule append_focus_log_raises)
qed

lemma fetch_sessions_no_fallback:
  assumes "connect_exn env = None" and "select_focus_log env limit = Inr rows"
  shows "fetch_sessions env limit = query_focus_log env limit []"
proof (cases "query_focus_log env limit []")
  case (Pair x ss)
  show ?thesis
  proof (cases x)
    case None
    with Pair assms(1) show ?thesis by (simp add: fetch_sessions_def)
  next
    case (Some e)
    with Pair query_focus_log_raises [OF assms(2), of "[]" e ss]
    have "exn_class_of e \<noteq> OperationalError" by simp
    with Pair Some assms(1) show ?thesis by (simp add: fetch_sessions_def)
  qed
qed

lemma get_recent_sessions_returns:
  "\<exists>sessions. fst (get_recent_sessions env limit self) = Inr sessions"
  by (cases "fetch_sessions env limit") (auto simp: get_recent_sessions_def split: option.splits)

lemma for_rows_invariant:
  assumes "\<And>i new. body i = Inr new \<Longrightarrow> \<forall>s \<in> set new. P s"
      and "\<forall>s \<in> set acc. P s"
  shows "\<forall>s \<in> set (snd (for_rows body is acc)). P s"
  using assms(2)
proof (induction "is" arbitrary: acc)
  case Nil
  then show ?case by simp
next
  case (Cons i "is")
  show ?case
  proof (cases "body i")
    case (Inl e)
    with Cons.prems show ?thesis by simp
  next
    case (Inr new)
    from assms(1) [OF Inr] Cons.prems have "\<forall>s \<in> set (acc @ new). P s" by auto
    from Cons.IH [OF this] Inr show ?thesis by simp
  qed
qed

lemma append_focus_log_nonnegative:
  assumes "append_focus_log env rows i = Inr new"
  shows "\<forall>s \<in> set new. 0 \<le> snd (snd s)"
proof (cases "duration_focus_log env rows i")
  case (Inl e)
  with assms show ?thesis
    by (auto simp: append_focus_log_def split: prod.splits if_splits)
next
  case (Inr d)
  with assms show ?thesis
    by (auto simp: append_focus_log_def split: prod.splits if_splits)
qed

lemma append_focus_sessions_nonnegative:
  assumes "append_focus_sessions env rows i = Inr new"
  shows "\<forall>s \<in> set new. 0 \<le> snd (snd s)"
proof (cases "duration_focus_sessions env rows i")
  case (Inl e)
  with assms show ?thesis
    by (auto simp: append_focus_sessions_def split: prod.splits if_splits)
next
  case (Inr d)
  with assms show ?thesis
    by (auto simp: append_focus_sessions_def split: prod.splits if_splits)
qed

lemma query_focus_log_nonnegative:
  assumes "\<forall>s \<in> set acc. 0 \<le> snd (snd s)"
  shows "\<forall>s \<in> set (snd (query_focus_log env limit acc)). 0 \<le> snd (snd s)"
proof (cases "select_focus_log env limit")
  case (Inl e)
  with assms show ?thesis by (simp add: query_focus_log_def)
next
  case (Inr rows)
  have "\<forall>s \<in> set (snd (for_rows (append_focus_log env rows) [0..<length rows] acc)).
          0 \<le> snd (snd s)"
    using append_focus_log_nonnegative assms by (rule for_rows_invariant)
  with Inr show ?thesis by (simp add: query_focus_log_def)
qed

lemma query_focus_sessions_nonnegative:
  assumes "\<forall>s \<in> set acc. 0 \<le> snd (snd s)"
  shows "\<forall>s \<in> set (snd (query_focus_sessions env limit acc)). 0 \<le> snd (snd s)"
proof (cases "select_focus_sessions env limit")
  case (Inl e)
  with assms show ?thesis by (simp add: query_focus_sessions_def)
next
  case (Inr rows)
  have "\<forall>s \<in> set (snd (for_rows (append_focus_sessions env rows) [0..<length rows] acc)).
          0 \<le> snd (snd s)"
    using append_focus_sessions_nonnegative assms by (rule for_rows_invariant)
  with Inr show ?thesis by (simp add: query_focus_sessions_def)
qed

lemma fetch_sessions_nonnegative:
  "\<forall>s \<in> set (snd (fetch_sessions env limit)). 0 \<le> snd (snd s)"
proof (cases "connect_exn env")
  case (Some e)
  then show ?thesis by (simp add: fetch_sessions_def)
next
  case None
  obtain x ss where q: "query_focus_log env limit [] = (x, ss)"
    by (cases "query_focus_log env limit []")
  have ss: "\<forall>s \<in> set ss. 0 \<le> snd (snd s)"
    using query_focus_log_nonnegative [of "[]" env limit] q by simp
  show ?thesis
  proof (cases x)
    case None
    with \<open>connect_exn env = None\<close> q ss show ?thesis by (simp add: fetch_sessions_def)
  next
    case (Some e)
    with \<open>connect_exn env = None\<close> q ss query_focus_sessions_nonnegative [OF ss, of env limit]
    show ?thesis by (simp add: fetch_sessions_def)
  qed
qed

lemma get_recent_sessions_result:
  "fst (get_recent_sessions env limit self) = Inr (snd (fetch_sessions env limit))"
  by (cases "fetch_sessions env limit") (auto simp: get_recent_sessions_def split: option.splits)

text \<open>
  Claim C3. Let the rows come from schema A, or from schema B after schema A failed with
  an \<open>OperationalError\<close>, newest first: their timestamps are text that
  \<open>strptime\<close> accepts, strictly decreasing, and \<open>now\<close> is later than the newest. Then
  the facade returns one session per row, in the order of the rows, with the row's
  subject and category, and the durations (in minutes) of the derived duration view: now
  minus its own time for the first, most recent, record, and for every other record the
  time of the record just before it in the list (the next newer one) minus its own time.
  For the records of 12:10, 12:05 and 12:00 read at 12:12 these are 2, 5 and 5 minutes.
\<close>

theorem recent_sessions_durations:
  assumes "connect_exn env = None"
      and "select_focus_log env limit = Inr rows
           \<or> (select_focus_log env limit = Inl (Exn OperationalError m)
              \<and> select_focus_sessions env limit = Inr rows)"
      and "map timestamp_of rows = map Str texts"
      and "map (strptime env) texts = map Inr instants"
      and "sorted_wrt (>) (now env # instants)"
  shows "get_recent_sessions env limit self =
     (Inr (map2 with_duration rows (derived_durations (now env) instants)), self)"
proof -
  let ?ds = "derived_durations (now env) instants"
  have "0 < snd (snd s)" if "s \<in> set (map2 with_duration rows ?ds)" for s
  proof -
    from that obtain r d where "s = with_duration r d" "d \<in> set ?ds"
      by (auto dest: set_zip_rightD)
    with derived_durations_positive [OF assms(5)] show ?thesis
      by (simp add: with_duration_def)
  qed
  then have "filter (\<lambda>s. 0 < snd (snd s)) (map2 with_duration rows ?ds)
      = map2 with_duration rows ?ds"
    by (simp only: filter_id_conv) blast
  with get_recent_sessions_parsed [OF assms(1-4), of self] show ?thesis by simp
qed

theorem recent_sessions_durations_witness:
  "get_recent_sessions example_db 3 idle_world =
     (Inr [(''slack'', ''distracted'', 2), (''code'', ''productive'', 5),
           (''firefox'', ''neutral'', 5)], idle_world)
   \<and> get_recent_sessions locked_db 3 idle_world =
     (Inr [(''slack'', ''distracted'', 2), (''code'', ''productive'', 5),
           (''firefox'', ''neutral'', 5)], idle_world)"
proof -
  let ?texts = "[''2024-01-01 12:10:00'', ''2024-01-01 12:05:00'', ''2024-01-01 12:00:00'']"
  let ?instants = "[1704111000000000, 1704110700000000, 1704110400000000] :: instant list"
  have a: "get_recent_sessions example_db 3 idle_world =
     (Inr (map2 with_duration example_rows (derived_durations (now example_db) ?instants)),
      idle_world)"
    by (rule recent_sessions_durations [where texts = ?texts and m = "[]"])
       (simp_all add: example_db_defs)
  have b: "get_recent_sessions locked_db 3 idle_world =
     (Inr (map2 with_duration example_rows (derived_durations (now locked_db) ?instants)),
      idle_world)"
    by (rule recent_sessions_durations [where texts = ?texts and m = "''database is locked''"])
       (simp_all add: example_db_defs)
  show ?thesis
    unfolding a b by (simp add: example_db_defs with_duration_def total_minutes_def)
qed

text \<open>
  Claim C9. The facade never raises, and no session it returns has a negative duration
  (a zero is the default of a record whose timestamp did not parse). In either schema an
  iteration whose computed duration is zero or negative appends nothing and raises
  nothing. So when the rows come from schema A, or from schema B after schema A failed
  with an \<open>OperationalError\<close>, with timestamps that \<open>strptime\<close> accepts, in any
  order, the facade returns exactly the rows whose computed duration is positive, in the
  order of the rows: every record whose computed duration is zero or negative (a
  duplicate or an out-of-order timestamp) is left out.
\<close>

theorem nonpositive_durations_excluded:
  "(\<exists>sessions. fst (get_recent_sessions env limit self) = Inr sessions
       \<and> (\<forall>s \<in> set sessions. 0 \<le> snd (snd s)))
   \<and> (duration_focus_log env rows i = Inr d \<and> d \<le> 0 \<longrightarrow>
        append_focus_log env rows i = Inr [])
   \<and> (duration_focus_sessions env rows i = Inr d \<and> d \<le> 0 \<longrightarrow>
        append_focus_sessions env rows i = Inr [])
   \<and> (connect_exn env = None
        \<and> (select_focus_log env limit = Inr rows
             \<or> (select_focus_log env limit = Inl (Exn OperationalError m)
                \<and> select_focus_sessions env limit = Inr rows))
        \<and> map timestamp_of rows = map Str texts
        \<and> map (strptime env) texts = map Inr instants \<longrightarrow>
        get_recent_sessions env limit self =
          (Inr (filter (\<lambda>s. 0 < snd (snd s))
                  (map2 with_duration rows (derived_durations (now env) instants))), self))"
proof -
  have a: "\<exists>sessions. fst (get_recent_sessions env limit self) = Inr sessions
       \<and> (\<forall>s \<in> set sessions. 0 \<le> snd (snd s))"
    using get_recent_sessions_result [of env limit self] fetch_sessions_nonnegative [of env limit]
    by blast
  have b: "append_focus_log env rows i = Inr []"
    if "duration_focus_log env rows i = Inr d" "d \<le> 0"
    using that by (simp add: append_focus_log_def split: prod.splits)
  have c: "append_focus_sessions env rows i = Inr []"
    if "duration_focus_sessions env rows i = Inr d" "d \<le> 0"
    using that by (simp add: append_focus_sessions_def split: prod.splits)
  from a b c get_recent_sessions_parsed [of env limit rows m texts instants self]
  show ?thesis by blast
qed

theorem nonpositive_durations_excluded_witness:
  "duration_focus_log jumbled_db jumbled_rows (Suc 0) = Inr 0
   \<and> append_focus_log jumbled_db jumbled_rows (Suc 0) = Inr []
   \<and> duration_focus_log jumbled_db jumbled_rows (Suc (Suc 0)) = Inr (- 5)
   \<and> append_focus_log jumbled_db jumbled_rows (Suc (Suc 0)) = Inr []
   \<and> derived_durations (now jumbled_db)
       [1704110700000000, 1704110700000000, 1704111000000000, 1704110400000000]
     = [7, 0, - 5, 10]
   \<and> get_recent_sessions jumbled_db 4 idle_world =
       (Inr [(''slack'', ''distracted'', 7), (''firefox'', ''neutral'', 10)], idle_world)"
proof -
  let ?texts = "[''2024-01-01 12:05:00'', ''2024-01-01 12:05:00'', ''2024-01-01 12:10:00'',
                 ''2024-01-01 12:00:00'']"
  let ?instants = "[1704110700000000, 1704110700000000, 1704111000000000, 1704110400000000]
                     :: instant list"
  have d1: "duration_focus_log jumbled_db jumbled_rows (Suc 0) = Inr 0"
    by (simp add: duration_focus_log_def strptime_cell_def total_minutes_def example_db_defs)
  have d2: "duration_focus_log jumbled_db jumbled_rows (Suc (Suc 0)) = Inr (- 5)"
    by (simp add: duration_focus_log_def strptime_cell_def total_minutes_def example_db_defs)
  have a1: "append_focus_log jumbled_db jumbled_rows (Suc 0) = Inr []"
    using nonpositive_durations_excluded
      [where env = jumbled_db and rows = jumbled_rows and i = "Suc 0" and d = 0] d1
    by simp
  have a2: "append_focus_log jumbled_db jumbled_rows (Suc (Suc 0)) = Inr []"
    using nonpositive_durations_excluded
      [where env = jumbled_db and rows = jumbled_rows and i = "Suc (Suc 0)" and d = "- 5"] d2
    by simp
  have g: "get_recent_sessions jumbled_db 4 idle_world =
     (Inr (filter (\<lambda>s. 0 < snd (snd s))
        (map2 with_duration jumbled_rows (derived_durations (now jumbled_db) ?instants))),
      idle_world)"
    using nonpositive_durations_excluded
      [where env = jumbled_db and limit = 4 and rows = jumbled_rows and texts = ?texts
         and instants = ?instants and self = idle_world and m = "[]"]
    by (simp add: example_db_defs)
  show ?thesis
    unfolding g using d1 d2 a1 a2
    by (simp add: example_db_defs with_duration_def total_minutes_def)
qed

text \<open>
  Claim C1, as the code has it. \<open>get_recent_sessions\<close> never raises: it always returns
  a list. When the query of schema A raises any \<open>sqlite3.OperationalError\<close> (a missing
  table is one case), the query of schema B is made and decides the result. When it
  raises any other exception, or when connecting fails, the exception is caught, its
  message is printed after \<open>[GUI] Error fetching sessions: \<close>, schema B is not tried,
  and the empty list is returned. When the query of schema A returns rows, schema B is
  never tried.
\<close>

theorem recent_sessions_fallback:
  "(\<exists>sessions. fst (get_recent_sessions env limit self) = Inr sessions)
   \<and> (connect_exn env = None \<and> select_focus_log env limit = Inl e
        \<and> exn_class_of e = OperationalError \<longrightarrow>
        fetch_sessions env limit = query_focus_sessions env limit [])
   \<and> (connect_exn env = None \<and> select_focus_log env limit = Inl e
        \<and> exn_class_of e \<noteq> OperationalError \<longrightarrow>
        get_recent_sessions env limit self =
          (Inr [], py_print (''[GUI] Error fetching sessions: '' @ str_of_exn e) self))
   \<and> (connect_exn env = None \<and> select_focus_log env limit = Inr rows \<longrightarrow>
        fetch_sessions env limit = query_focus_log env limit [])
   \<and> (connect_exn env = Some e \<longrightarrow>
        get_recent_sessions env limit self =
          (Inr [], py_print (''[GUI] Error fetching sessions: '' @ str_of_exn e) self))"
proof -
  have a: "fetch_sessions env limit = query_focus_sessions env limit []"
    if "connect_exn env = None" "select_focus_log env limit = Inl e"
      "exn_class_of e = OperationalError"
    using that by (simp add: fetch_sessions_def query_focus_log_def)
  have b: "get_recent_sessions env limit self =
          (Inr [], py_print (''[GUI] Error fetching sessions: '' @ str_of_exn e) self)"
    if "connect_exn env = None" "select_focus_log env limit = Inl e"
      "exn_class_of e \<noteq> OperationalError"
    using that by (simp add: get_recent_sessions_def fetch_sessions_def query_focus_log_def)
  have c: "get_recent_sessions env limit self =
          (Inr [], py_print (''[GUI] Error fetching sessions: '' @ str_of_exn e) self)"
    if "connect_exn env = Some e"
    using that by (simp add: get_recent_sessions_def fetch_sessions_def)
  from a b c get_recent_sessions_returns [of env limit self]
    fetch_sessions_no_fallback [of env limit rows]
  show ?thesis by blast
qed

theorem recent_sessions_fallback_witness:
  "connect_exn locked_db = None
   \<and> select_focus_log locked_db 3 = Inl (Exn OperationalError ''database is locked'')
   \<and> fetch_sessions locked_db 3 = query_focus_sessions locked_db 3 []
   \<and> select_focus_log corrupt_db 3 = Inl (Exn DatabaseError ''file is not a database'')
   \<and> get_recent_sessions corrupt_db 3 idle_world =
       (Inr [], py_print ''[GUI] Error fetching sessions: file is not a database'' idle_world)
   \<and> select_focus_log example_db 3 = Inr example_rows
   \<and> fetch_sessions example_db 3 = query_focus_log example_db 3 []"
  using recent_sessions_fallback
      [where env = locked_db and limit = 3
         and e = "Exn OperationalError ''database is locked''"]
    recent_sessions_fallback
      [where env = corrupt_db and limit = 3 and self = idle_world
         and e = "Exn DatabaseError ''file is not a database''"]
    recent_sessions_fallback [where env = example_db and limit = 3 and rows = example_rows]
  by (simp add: example_db_defs)

text \<open>The claim as it is worded fails: with schema A failing because the database is
  locked, which is no missing table, the rows of schema B are returned; and with schema
  A failing with an error of another class, the caller gets the empty list, not an
  error.\<close>

theorem recent_sessions_fallback_counterexample:
  "select_focus_log locked_db 3 = Inl (Exn OperationalError ''database is locked'')
   \<and> fst (get_recent_sessions locked_db 3 idle_world) =
       Inr [(''slack'', ''distracted'', 2), (''code'', ''productive'', 5),
            (''firefox'', ''neutral'', 5)]
   \<and> select_focus_log corrupt_db 3 = Inl (Exn DatabaseError ''file is not a database'')
   \<and> fst (get_recent_sessions corrupt_db 3 idle_world) = Inr []"
proof -
  let ?texts = "[''2024-01-01 12:10:00'', ''2024-01-01 12:05:00'', ''2024-01-01 12:00:00'']"
  let ?instants = "[1704111000000000, 1704110700000000, 1704110400000000] :: instant list"
  have "get_recent_sessions locked_db 3 idle_world =
     (Inr (filter (\<lambda>s. 0 < snd (snd s))
        (map2 with_duration example_rows (derived_durations (now locked_db) ?instants))),
      idle_world)"
    by (rule get_recent_sessions_parsed [where texts = ?texts and m = "''database is locked''"])
       (simp_all add: example_db_defs)
  then have "fst (get_recent_sessions locked_db 3 idle_world) =
       Inr [(''slack'', ''distracted'', 2), (''code'', ''productive'', 5),
            (''firefox'', ''neutral'', 5)]"
    by (simp add: example_db_defs with_duration_def total_minutes_def)
  moreover have "fst (get_recent_sessions corrupt_db 3 idle_world) = Inr []"
    by (simp add: get_recent_sessions_def fetch_sessions_def query_focus_log_def example_db_defs)
  ultimately show ?thesis by (simp add: example_db_defs)
qed

end
